theory Spec2Isabelle
  imports Main "HOL-Library.Multiset"
begin

section \<open>Canonical records\<close>

text \<open>
  The record shape written by the normalizers (\<^verbatim>\<open>parseGitHubRepos\<close>,
  \<^verbatim>\<open>fetchGitHubRepos\<close>) and stored in the manifest.  The field \<^verbatim>\<open>id\<close> is
  named \<open>script_id\<close> here.  Fields that only some producers write are options;
  \<^verbatim>\<open>tags\<close> is an option because the query functions guard it with
  \<^verbatim>\<open>s.tags && ...\<close>.
\<close>

record script =
  script_id :: string
  title :: string
  category :: string
  description :: string
  tags :: "string list option"
  difficulty :: string
  dateAdded :: string
  lastModified :: string
  source :: string
  url :: "string option"
  stars :: "int option"
  forks :: "int option"
  owner :: "string option"
  code :: string

section \<open>JavaScript primitives used by the code\<close>

text \<open>
  A string is the sequence of its code units, and the model covers the strings whose
  code units are below 256 (ASCII and Latin-1 text).
  \<^verbatim>\<open>a > b\<close> on two strings compares them lexicographically by code unit.
  \<open>js_string_lt a b\<close> is \<^verbatim>\<open>a < b\<close>.
\<close>

fun js_string_lt :: "string \<Rightarrow> string \<Rightarrow> bool" where
  "js_string_lt [] [] = False"
| "js_string_lt [] (y # ys) = True"
| "js_string_lt (x # xs) [] = False"
| "js_string_lt (x # xs) (y # ys) =
     ((of_char x :: nat) < of_char y \<or> (x = y \<and> js_string_lt xs ys))"

definition js_string_gt :: "string \<Rightarrow> string \<Rightarrow> bool" where
  "js_string_gt a b = js_string_lt b a"

text \<open>
  \<^verbatim>\<open>Array.prototype.findIndex\<close>: the index of the first element satisfying the
  predicate, \<open>-1\<close> when there is none.
\<close>

fun findIndex :: "('a \<Rightarrow> bool) \<Rightarrow> 'a list \<Rightarrow> int" where
  "findIndex p [] = - 1"
| "findIndex p (x # xs) =
     (if p x then 0
      else (let i = findIndex p xs in if i < 0 then - 1 else i + 1))"

section \<open>Merging: \<^verbatim>\<open>ScriptUpdateManager.mergeScripts\<close>\<close>

text \<open>
  One iteration of the \<^verbatim>\<open>for (const script of newScripts)\<close> loop of the browser
  manager.  The loop state is the set \<^verbatim>\<open>existingIds\<close> and the array
  \<^verbatim>\<open>this.scripts\<close>.  The comparison \<^verbatim>\<open>script.lastModified > this.scripts[index].lastModified\<close>
  is a comparison of two strings.
\<close>

definition manager_merge_step ::
  "string set \<times> script list \<Rightarrow> script \<Rightarrow> string set \<times> script list" where
  "manager_merge_step st script =
     (let existingIds = fst st; scripts = snd st in
      if script_id script \<notin> existingIds
      then (insert (script_id script) existingIds, scripts @ [script])
      else
        (let index = findIndex (\<lambda>s. script_id s = script_id script) scripts in
         if index \<ge> 0 \<and>
            js_string_gt (lastModified script) (lastModified (scripts ! nat index))
         then (existingIds, scripts[nat index := script])
         else (existingIds, scripts)))"

definition manager_mergeScripts :: "script list \<Rightarrow> script list \<Rightarrow> script list" where
  "manager_mergeScripts scripts newScripts =
     snd (foldl manager_merge_step (set (map script_id scripts), scripts) newScripts)"

section \<open>Merging: \<^verbatim>\<open>mergeScripts\<close> of the build script\<close>

text \<open>
  A JavaScript number that may be \<^verbatim>\<open>NaN\<close> is an \<open>int option\<close> (\<open>None\<close> is
  \<^verbatim>\<open>NaN\<close>); the numbers here are time values in milliseconds.  Every comparison
  with \<^verbatim>\<open>NaN\<close> is false, and every subtraction with \<^verbatim>\<open>NaN\<close> is \<^verbatim>\<open>NaN\<close>.
\<close>

definition js_num_gt :: "int option \<Rightarrow> int option \<Rightarrow> bool" where
  "js_num_gt a b = (case a of None \<Rightarrow> False
                    | Some x \<Rightarrow> (case b of None \<Rightarrow> False | Some y \<Rightarrow> x > y))"

definition js_num_minus :: "int option \<Rightarrow> int option \<Rightarrow> int option" where
  "js_num_minus a b = (case a of None \<Rightarrow> None
                       | Some x \<Rightarrow> (case b of None \<Rightarrow> None | Some y \<Rightarrow> Some (x - y)))"

text \<open>
  The manifest file \<^verbatim>\<open>{ version, lastUpdated, totalScripts, scripts, categories }\<close>.
\<close>

record manifest =
  version :: string
  lastUpdated :: "string option"
  totalScripts :: "nat option"
  manifest_scripts :: "script list"
  categories :: "string list option"

text \<open>
  One iteration of the loop of \<^verbatim>\<open>mergeScripts(manifest, newScripts)\<close> in
  \<^verbatim>\<open>scripts/build.js\<close>.  The state is \<^verbatim>\<open>existingIds\<close>, \<^verbatim>\<open>manifest.scripts\<close>,
  \<^verbatim>\<open>added\<close> and \<^verbatim>\<open>updated\<close>.  The parameter \<open>date\<close> is the time value of
  \<^verbatim>\<open>new Date(s)\<close> for a string \<open>s\<close>, a function of the JavaScript host
  (\<open>None\<close> for an invalid date); the comparison
  \<^verbatim>\<open>new Date(script.lastModified) > new Date(existing.lastModified)\<close> compares the two
  time values.
\<close>

definition build_merge_step ::
  "(string \<Rightarrow> int option) \<Rightarrow> string set \<times> script list \<times> nat \<times> nat \<Rightarrow> script \<Rightarrow>
   string set \<times> script list \<times> nat \<times> nat" where
  "build_merge_step date st script =
     (case st of (existingIds, scripts, added, updated) \<Rightarrow>
      if script_id script \<notin> existingIds
      then (insert (script_id script) existingIds, scripts @ [script], added + 1, updated)
      else
        (let index = findIndex (\<lambda>s. script_id s = script_id script) scripts in
         if index \<ge> 0
         then
           (let existing = scripts ! nat index in
            if js_num_gt (date (lastModified script)) (date (lastModified existing))
            then (existingIds, scripts[nat index := script], added, updated + 1)
            else (existingIds, scripts, added, updated))
         else (existingIds, scripts, added, updated)))"

text \<open>
  The function returns the manifest; the pair of counters is what it logs
  (\<^verbatim>\<open>Added ${added} new scripts, updated ${updated} existing\<close>).
\<close>

definition mergeScripts ::
  "(string \<Rightarrow> int option) \<Rightarrow> manifest \<Rightarrow> script list \<Rightarrow> manifest \<times> nat \<times> nat" where
  "mergeScripts date manifest newScripts =
     (case foldl (build_merge_step date)
             (set (map script_id (manifest_scripts manifest)), manifest_scripts manifest, 0, 0)
             newScripts of
        (existingIds, scripts, added, updated) \<Rightarrow>
          (manifest\<lparr>manifest_scripts := scripts\<rparr>, added, updated))"

section \<open>Sorting and slicing\<close>

text \<open>
  \<^verbatim>\<open>Array.prototype.sort(comparefn)\<close> is a stable sort (ECMAScript 2019 and later);
  the sequence of comparator calls is left to the implementation, so the model fixes
  one stable algorithm, insertion from the right.  A comparator result \<^verbatim>\<open>NaN\<close> is
  read as \<open>+0\<close>, as the language's \<^verbatim>\<open>SortCompare\<close> does.  Where the comparator
  is not consistent (it returns \<^verbatim>\<open>NaN\<close> for an invalid date) the language leaves
  the order to the implementation, and the order of the model is one possible order;
  the theorems below that speak of the order assume valid dates.
\<close>

definition SortCompare :: "('a \<Rightarrow> 'a \<Rightarrow> int option) \<Rightarrow> 'a \<Rightarrow> 'a \<Rightarrow> int" where
  "SortCompare comparefn x y = (case comparefn x y of None \<Rightarrow> 0 | Some v \<Rightarrow> v)"

fun js_insert :: "('a \<Rightarrow> 'a \<Rightarrow> int option) \<Rightarrow> 'a \<Rightarrow> 'a list \<Rightarrow> 'a list" where
  "js_insert comparefn x [] = [x]"
| "js_insert comparefn x (y # ys) =
     (if SortCompare comparefn x y \<le> 0 then x # y # ys else y # js_insert comparefn x ys)"

fun js_sort :: "('a \<Rightarrow> 'a \<Rightarrow> int option) \<Rightarrow> 'a list \<Rightarrow> 'a list" where
  "js_sort comparefn [] = []"
| "js_sort comparefn (x # xs) = js_insert comparefn x (js_sort comparefn xs)"

text \<open>
  \<^verbatim>\<open>xs.slice(0, stop)\<close> for an integer \<^verbatim>\<open>stop\<close>: a negative \<^verbatim>\<open>stop\<close> counts from
  the end of the array.
\<close>

definition slice0 :: "'a list \<Rightarrow> int \<Rightarrow> 'a list" where
  "slice0 xs stop =
     (let len = int (length xs);
          final = (if stop < 0 then max (len + stop) 0 else min stop len)
      in take (nat final) xs)"

section \<open>Strings: lower case, substrings, decimal numerals\<close>

text \<open>
  A string is the sequence of its code units, each below 256.  On such strings
  \<^verbatim>\<open>toLowerCase\<close> works character by character: the letters \<^verbatim>\<open>A\<close> to \<^verbatim>\<open>Z\<close>
  (65 to 90) and the Latin-1 capitals 192 to 214 and 216 to 222 move up by 32, and
  every other code unit, the multiplication sign 215 among them, is left as it is.
\<close>

definition lower_char :: "char \<Rightarrow> char" where
  "lower_char c =
     (let n = (of_char c :: nat) in
      if (65 \<le> n \<and> n \<le> 90) \<or> (192 \<le> n \<and> n \<le> 214) \<or> (216 \<le> n \<and> n \<le> 222)
      then char_of (n + 32) else c)"

definition toLowerCase :: "string \<Rightarrow> string" where
  "toLowerCase s = map lower_char s"

text \<open>
  \<^verbatim>\<open>toUpperCase\<close> is not called by the code; it says which strings are case variants
  of a query.  Its result is a list of code units as numbers, because three characters
  leave the range: the sharp s (223) becomes \<^verbatim>\<open>SS\<close>, the micro sign (181) becomes
  code unit 924 and y with diaeresis (255) becomes code unit 376.
\<close>

definition upper_units :: "char \<Rightarrow> nat list" where
  "upper_units c =
     (let n = (of_char c :: nat) in
      if (97 \<le> n \<and> n \<le> 122) \<or> (224 \<le> n \<and> n \<le> 246) \<or> (248 \<le> n \<and> n \<le> 254)
      then [n - 32]
      else if n = 223 then [83, 83]
      else if n = 181 then [924]
      else if n = 255 then [376]
      else [n])"

definition toUpperCase :: "string \<Rightarrow> nat list" where
  "toUpperCase s = concat (map upper_units s)"

text \<open>
  \<^verbatim>\<open>s.includes(q)\<close>: \<open>q\<close> occurs in \<open>s\<close> as a contiguous substring.
\<close>

fun startsWith :: "string \<Rightarrow> string \<Rightarrow> bool" where
  "startsWith s [] = True"
| "startsWith [] (q # qs) = False"
| "startsWith (c # cs) (q # qs) = (c = q \<and> startsWith cs qs)"

fun str_includes :: "string \<Rightarrow> string \<Rightarrow> bool" where
  "str_includes [] q = (q = [])"
| "str_includes (c # cs) q = (startsWith (c # cs) q \<or> str_includes cs q)"

text \<open>The decimal numeral of a natural number, as a template literal prints it.\<close>

fun show_nat :: "nat \<Rightarrow> string" where
  "show_nat n =
     (if n < 10 then [char_of (48 + n)]
      else show_nat (n div 10) @ [char_of (48 + n mod 10)])"

declare show_nat.simps [simp del]

section \<open>The browser manager: state and queries\<close>

text \<open>
  The console is a list of lines, each with the method that wrote it
  (\<^verbatim>\<open>console.log\<close>, \<^verbatim>\<open>console.warn\<close>, \<^verbatim>\<open>console.error\<close>).
\<close>

datatype level = Log | Warn | Error

type_synonym console = "(level \<times> string) list"

text \<open>
  A registered update callback: \<open>cb_run\<close> is \<open>None\<close> when the call returns and
  \<open>Some msg\<close> when it throws an error with that message.  \<open>cb_id\<close> names the
  callback in the trace of calls.
\<close>

record callback =
  cb_id :: nat
  cb_run :: "script list \<Rightarrow> string option \<Rightarrow> string option"

record config =
  manifestPath :: string
  cacheKey :: string
  cacheTTL :: int
  githubApiBase :: string
  searchQuery :: string
  maxResults :: nat
  enableGitHubFetch :: bool

record manager =
  config :: config
  scripts :: "script list"
  lastUpdate :: "string option"
  updateCallbacks :: "callback list"

text \<open>
  \<^verbatim>\<open>search(query)\<close>: the filter over \<^verbatim>\<open>this.scripts\<close>.
\<close>

definition search :: "manager \<Rightarrow> string \<Rightarrow> script list" where
  "search m query =
     (let lowerQuery = toLowerCase query in
      filter (\<lambda>s.
          str_includes (toLowerCase (title s)) lowerQuery \<or>
          str_includes (toLowerCase (description s)) lowerQuery \<or>
          (case tags s of None \<Rightarrow> False
           | Some ts \<Rightarrow> list_ex (\<lambda>t. str_includes (toLowerCase t) lowerQuery) ts))
        (scripts m))"

text \<open>
  \<^verbatim>\<open>getRecent(limit = 10)\<close>: the array is copied (\<^verbatim>\<open>[...this.scripts]\<close>), the copy is
  sorted and sliced.  The second component of the result is the manager after the call.
  The comparator is \<^verbatim>\<open>new Date(b.lastModified) - new Date(a.lastModified)\<close>.
\<close>

definition getRecent ::
  "(string \<Rightarrow> int option) \<Rightarrow> manager \<Rightarrow> int option \<Rightarrow> script list \<times> manager" where
  "getRecent date m limit =
     (let lim = (case limit of None \<Rightarrow> 10 | Some l \<Rightarrow> l);
          copy = scripts m;
          sorted_copy =
            js_sort (\<lambda>a b. js_num_minus (date (lastModified b)) (date (lastModified a))) copy
      in (slice0 sorted_copy lim, m))"

section \<open>Upstream records and the normalizers\<close>

text \<open>
  An item of GitHub's repository search response, with the fields the code reads.
  \<^verbatim>\<open>id\<close> is \<open>repo_id\<close>, \<^verbatim>\<open>description\<close> is \<open>repo_description\<close>, \<^verbatim>\<open>owner\<close> is
  \<open>repo_owner\<close>; \<open>None\<close> is \<^verbatim>\<open>null\<close> or an absent field.
\<close>

record owner_info =
  login :: string
  avatar_url :: string
  owner_html_url :: string

record license_info =
  spdx_id :: string
  license_name :: string

record raw_repo =
  repo_id :: nat
  name :: string
  full_name :: string
  html_url :: string
  repo_description :: "string option"
  stargazers_count :: int
  forks_count :: int
  language :: "string option"
  topics :: "string list option"
  updated_at :: string
  created_at :: string
  pushed_at :: string
  repo_owner :: owner_info
  default_branch :: string
  open_issues_count :: int
  license :: "license_info option"
  archived :: bool
  fork :: bool
  clone_url :: string

text \<open>
  \<^verbatim>\<open>x || d\<close> for a string \<open>x\<close> that may be absent: \<^verbatim>\<open>null\<close>, \<^verbatim>\<open>undefined\<close> and the
  empty string are falsy.  \<^verbatim>\<open>xs || []\<close> for an array that may be absent.
\<close>

definition string_or :: "string option \<Rightarrow> string \<Rightarrow> string" where
  "string_or x d = (case x of None \<Rightarrow> d | Some v \<Rightarrow> if v = [] then d else v)"

definition list_or_empty :: "'a list option \<Rightarrow> 'a list" where
  "list_or_empty x = (case x of None \<Rightarrow> [] | Some v \<Rightarrow> v)"

text \<open>
  \<^verbatim>\<open>parseGitHubRepos(repos)\<close> of the browser manager.  The text of the template
  \<^verbatim>\<open>generateRepoCodeBlock(repo)\<close> is a parameter \<open>gen\<close>: it formats a date in the
  host's locale, and no property below reads the \<^verbatim>\<open>code\<close> field.
\<close>

definition parseGitHubRepos :: "(raw_repo \<Rightarrow> string) \<Rightarrow> raw_repo list \<Rightarrow> script list" where
  "parseGitHubRepos gen repos =
     map (\<lambda>repo.
       \<lparr> script_id = ''github-'' @ show_nat (repo_id repo),
         title = name repo,
         category = ''GitHub Repository'',
         description = string_or (repo_description repo) ''No description available'',
         tags = Some ([''github'', ''repository''] @ list_or_empty (topics repo)),
         difficulty = ''varies'',
         dateAdded = created_at repo,
         lastModified = updated_at repo,
         source = ''github'',
         url = Some (html_url repo),
         stars = Some (stargazers_count repo),
         forks = None,
         owner = Some (login (repo_owner repo)),
         code = gen repo \<rparr>) repos"

text \<open>
  The mapping at the end of \<^verbatim>\<open>fetchGitHubRepos()\<close> in \<^verbatim>\<open>scripts/build.js\<close>.
\<close>

definition build_normalize :: "(raw_repo \<Rightarrow> string) \<Rightarrow> raw_repo list \<Rightarrow> script list" where
  "build_normalize gen repos =
     map (\<lambda>repo.
       \<lparr> script_id = ''github-'' @ show_nat (repo_id repo),
         title = name repo,
         category = ''GitHub Repository'',
         description = string_or (repo_description repo) ''No description available'',
         tags = Some (slice0 ([''github'', ''repository''] @ list_or_empty (topics repo)) 8),
         difficulty = ''varies'',
         dateAdded = created_at repo,
         lastModified = updated_at repo,
         source = ''github'',
         url = Some (html_url repo),
         stars = Some (stargazers_count repo),
         forks = Some (forks_count repo),
         owner = Some (login (repo_owner repo)),
         code = gen repo \<rparr>) repos"

text \<open>
  \<^verbatim>\<open>normalizeRepo(repo)\<close> of \<^verbatim>\<open>scripts/update-feed.js\<close> and the record it builds.
\<close>

record feed_repo =
  feed_id :: nat
  feed_name :: string
  feed_full_name :: string
  feed_html_url :: string
  feed_description :: string
  feed_stargazers_count :: int
  feed_forks_count :: int
  feed_language :: string
  feed_topics :: "string list"
  feed_updated_at :: string
  feed_created_at :: string
  feed_pushed_at :: string
  feed_owner :: owner_info
  feed_default_branch :: string
  feed_open_issues_count :: int
  feed_license :: "string option"
  feed_is_archived :: bool
  feed_is_fork :: bool

definition normalizeRepo :: "raw_repo \<Rightarrow> feed_repo" where
  "normalizeRepo repo =
     \<lparr> feed_id = repo_id repo,
       feed_name = name repo,
       feed_full_name = full_name repo,
       feed_html_url = html_url repo,
       feed_description = string_or (repo_description repo) [],
       feed_stargazers_count = stargazers_count repo,
       feed_forks_count = forks_count repo,
       feed_language = string_or (language repo) ''AutoHotkey'',
       feed_topics = list_or_empty (topics repo),
       feed_updated_at = updated_at repo,
       feed_created_at = created_at repo,
       feed_pushed_at = pushed_at repo,
       feed_owner = \<lparr> login = login (repo_owner repo),
                      avatar_url = avatar_url (repo_owner repo),
                      owner_html_url = owner_html_url (repo_owner repo) \<rparr>,
       feed_default_branch = default_branch repo,
       feed_open_issues_count = open_issues_count repo,
       feed_license = (case license repo of None \<Rightarrow> None | Some l \<Rightarrow> Some (spdx_id l)),
       feed_is_archived = archived repo,
       feed_is_fork = fork repo \<rparr>"

text \<open>
  \<^verbatim>\<open>deduplicateRepos(repos)\<close>: a filter with the set \<^verbatim>\<open>seen\<close> as its state.
\<close>

fun dedup_filter :: "nat set \<Rightarrow> feed_repo list \<Rightarrow> feed_repo list" where
  "dedup_filter seen [] = []"
| "dedup_filter seen (repo # repos) =
     (if feed_id repo \<in> seen then dedup_filter seen repos
      else repo # dedup_filter (insert (feed_id repo) seen) repos)"

definition deduplicateRepos :: "feed_repo list \<Rightarrow> feed_repo list" where
  "deduplicateRepos repos = dedup_filter {} repos"

text \<open>
  \<^verbatim>\<open>sortByUpdated(repos)\<close>, with the comparator
  \<^verbatim>\<open>new Date(b.updated_at).getTime() - new Date(a.updated_at).getTime()\<close>.
\<close>

definition sortByUpdated :: "(string \<Rightarrow> int option) \<Rightarrow> feed_repo list \<Rightarrow> feed_repo list" where
  "sortByUpdated date repos =
     js_sort (\<lambda>a b. js_num_minus (date (feed_updated_at b)) (date (feed_updated_at a))) repos"

section \<open>The JavaScript host\<close>

text \<open>
  What the code receives from outside is a record of the host.
  \<^item> \<open>https_request n path\<close>: the outcome of the \<open>n\<close>-th request of a run of
    \<^verbatim>\<open>update-feed.js\<close>, either a response (status code and body text) or the
    message of the request's \<^verbatim>\<open>error\<close> event.
  \<^item> \<open>JSON_parse\<close>: \<^verbatim>\<open>JSON.parse\<close> on a search response, \<open>Inl\<close> the message of
    the error it throws.
  \<^item> \<open>fetch url\<close>: the outcome of the browser's \<^verbatim>\<open>fetch\<close>, either a rejection or
    a response with its status and the result of \<^verbatim>\<open>response.json()\<close>.
  \<^item> \<open>encodeURIComponent\<close>: total on the strings of this model (the built-in
    throws only on a lone surrogate, and every code unit here is below 256).
  \<^item> \<open>Date_now\<close>: the clock, in milliseconds, read once per operation;
    \<open>toISOString\<close> renders a time value.
  \<^item> \<open>JSON_parse_cache\<close>, \<open>JSON_stringify_cache\<close>: \<^verbatim>\<open>JSON.parse\<close> and
    \<^verbatim>\<open>JSON.stringify\<close> on the cache entry \<^verbatim>\<open>{ scripts, timestamp }\<close>.
\<close>

record search_result =
  items :: "raw_repo list option"

datatype http_outcome = HttpResponse nat string | RequestError string

datatype fetch_outcome = FetchRejected string | FetchResponse nat "string + search_result"

record host =
  encodeURIComponent :: "string \<Rightarrow> string"
  https_request :: "nat \<Rightarrow> string \<Rightarrow> http_outcome"
  JSON_parse :: "string \<Rightarrow> string + search_result"
  fetch :: "string \<Rightarrow> fetch_outcome"
  Date_now :: int
  toISOString :: "int \<Rightarrow> string"
  JSON_parse_cache :: "string \<Rightarrow> string + script list \<times> int"
  JSON_stringify_cache :: "script list \<times> int \<Rightarrow> string"

section \<open>The feed updater: \<^verbatim>\<open>scripts/update-feed.js\<close>\<close>

text \<open>
  \<^verbatim>\<open>fetchFromGitHub(endpoint)\<close>: the promise resolves (\<open>Inr\<close>) or rejects with an
  error (\<open>Inl\<close>, the error's message).
\<close>

definition feed_fetchFromGitHub :: "host \<Rightarrow> nat \<Rightarrow> string \<Rightarrow> string + search_result" where
  "feed_fetchFromGitHub h n endpoint =
     (case https_request h n endpoint of
        RequestError message \<Rightarrow> Inl message
      | HttpResponse statusCode body \<Rightarrow>
          if statusCode = 200
          then (case JSON_parse h body of
                  Inl message \<Rightarrow> Inl (''Failed to parse response: '' @ message)
                | Inr v \<Rightarrow> Inr v)
          else if statusCode = 403
          then Inl ''GitHub API rate limit exceeded. Set GITHUB_TOKEN for higher limits.''
          else Inl (''GitHub API error: '' @ show_nat statusCode @ '' - '' @ body))"

text \<open>
  \<^verbatim>\<open>searchRepos(query, perPage)\<close>: the lines it writes to the console and its result.
\<close>

definition searchRepos ::
  "host \<Rightarrow> nat \<Rightarrow> string \<Rightarrow> nat \<Rightarrow> console \<times> (string + raw_repo list)" where
  "searchRepos h n query perPage =
     (let encodedQuery = encodeURIComponent h query;
          endpoint = ''/search/repositories?q='' @ encodedQuery @
                     ''&sort=updated&order=desc&per_page='' @ show_nat perPage
      in ([(Log, ''  Searching: '' @ query)],
          (case feed_fetchFromGitHub h n endpoint of
             Inl message \<Rightarrow> Inl message
           | Inr result \<Rightarrow> Inr (list_or_empty (items result)))))"

text \<open>
  One iteration of the loop \<^verbatim>\<open>for (const query of CONFIG.queries)\<close> of
  \<^verbatim>\<open>updateFeed()\<close>: the \<^verbatim>\<open>try\<close> body on \<open>Inr\<close>, the \<^verbatim>\<open>catch\<close> handler on
  \<open>Inl\<close>.  The state is \<^verbatim>\<open>allRepos\<close>, the console and the number of requests made
  so far.  The pause between two requests is not part of the state.
\<close>

definition updateFeed_step ::
  "host \<Rightarrow> feed_repo list \<times> console \<times> nat \<Rightarrow> string \<Rightarrow> feed_repo list \<times> console \<times> nat" where
  "updateFeed_step h st query =
     (case st of (allRepos, out, n) \<Rightarrow>
      (case searchRepos h n query 30 of (lines, r) \<Rightarrow>
       (case r of
          Inr repos \<Rightarrow> (allRepos @ map normalizeRepo repos, out @ lines, Suc n)
        | Inl message \<Rightarrow>
            (allRepos,
             out @ lines @
               [(Error, ''  Error with query '' @ [CHR 0x22] @ query @ [CHR 0x22] @ '': '' @ message)],
             Suc n))))"

definition updateFeed_queries ::
  "host \<Rightarrow> console \<Rightarrow> nat \<Rightarrow> string list \<Rightarrow> feed_repo list \<times> console \<times> nat" where
  "updateFeed_queries h out n queries = foldl (updateFeed_step h) ([], out, n) queries"

text \<open>
  The processing after the loop: deduplicate, sort, cut to \<^verbatim>\<open>CONFIG.limit\<close>
  (\<open>None\<close> when \<^verbatim>\<open>parseInt\<close> gave \<^verbatim>\<open>NaN\<close>).
\<close>

definition updateFeed_process ::
  "(string \<Rightarrow> int option) \<Rightarrow> int option \<Rightarrow> feed_repo list \<Rightarrow> feed_repo list" where
  "updateFeed_process date limit allRepos =
     (let deduped = deduplicateRepos allRepos;
          sorted_repos = sortByUpdated date deduped
      in case limit of
           None \<Rightarrow> sorted_repos
         | Some l \<Rightarrow> if int (length sorted_repos) > l then slice0 sorted_repos l else sorted_repos)"

section \<open>The browser manager: cache, fetch, update\<close>

text \<open>
  \<^verbatim>\<open>localStorage\<close>: the stored strings, and whether the store accepts a write
  (\<^verbatim>\<open>setItem\<close> throws when it does not).  Reading the global \<^verbatim>\<open>localStorage\<close>
  has one of three outcomes: it is undefined (\<^verbatim>\<open>typeof localStorage === 'undefined'\<close>,
  as outside a browser), the read throws (a browser that denies the document access to
  storage throws a \<^verbatim>\<open>SecurityError\<close> from the accessor, also under \<^verbatim>\<open>typeof\<close>),
  or the store is there.  The world of the manager is this, the console, and the trace
  of callback calls with their arguments.
\<close>

record storage =
  stored :: "string \<rightharpoonup> string"
  writable :: bool

datatype storage_access = Undefined | Denied string | Available storage

record world =
  localStorage :: storage_access
  console :: console
  invoked :: "(nat \<times> script list \<times> string option) list"

definition say :: "level \<Rightarrow> string \<Rightarrow> world \<Rightarrow> world" where
  "say l msg w = w\<lparr>console := console w @ [(l, msg)]\<rparr>"

definition setItem :: "storage \<Rightarrow> string \<Rightarrow> string \<Rightarrow> string + storage" where
  "setItem st k v =
     (if writable st then Inr (st\<lparr>stored := (stored st)(k \<mapsto> v)\<rparr>)
      else Inl ''QuotaExceededError'')"

text \<open>
  \<^verbatim>\<open>loadFromCache()\<close>: the outcome, the world and the manager after the call.  The
  outcome is \<open>Inr\<close> the value returned, or \<open>Inl\<close> the message of an error that leaves
  the function: the test \<^verbatim>\<open>typeof localStorage === 'undefined'\<close> stands before the
  \<^verbatim>\<open>try\<close>, so an error thrown by reading \<^verbatim>\<open>localStorage\<close> is not caught.
\<close>

definition loadFromCache ::
  "host \<Rightarrow> world \<Rightarrow> manager \<Rightarrow> (string + bool) \<times> world \<times> manager" where
  "loadFromCache h w m =
     (case localStorage w of
        Denied message \<Rightarrow> (Inl message, w, m)
      | Undefined \<Rightarrow> (Inr False, w, m)
      | Available st \<Rightarrow>
          (case stored st (cacheKey (config m)) of
             None \<Rightarrow> (Inr False, w, m)
           | Some cached \<Rightarrow>
               if cached = [] then (Inr False, w, m)
               else
                 (case JSON_parse_cache h cached of
                    Inl message \<Rightarrow>
                      (Inr False, say Error (''Error loading from cache: '' @ message) w, m)
                  | Inr (cachedScripts, timestamp) \<Rightarrow>
                      (let age = Date_now h - timestamp in
                       if age < cacheTTL (config m)
                       then (Inr True, say Log ''Loaded scripts from cache'' w,
                             m\<lparr>scripts := manager_mergeScripts (scripts m) cachedScripts\<rparr>)
                       else (Inr False, w, m)))))"

text \<open>
  \<^verbatim>\<open>saveToCache()\<close>: the outcome (\<open>Inl\<close> the message of an error that leaves the
  function, for the same reason) and the world after the call.
\<close>

definition saveToCache :: "host \<Rightarrow> world \<Rightarrow> manager \<Rightarrow> (string + unit) \<times> world" where
  "saveToCache h w m =
     (case localStorage w of
        Denied message \<Rightarrow> (Inl message, w)
      | Undefined \<Rightarrow> (Inr (), w)
      | Available st \<Rightarrow>
          (case setItem st (cacheKey (config m)) (JSON_stringify_cache h (scripts m, Date_now h)) of
             Inl message \<Rightarrow> (Inr (), say Error (''Error saving to cache: '' @ message) w)
           | Inr st' \<Rightarrow> (Inr (), w\<lparr>localStorage := Available st'\<rparr>)))"

text \<open>
  \<^verbatim>\<open>fetchFromGitHub()\<close> of the manager.  \<open>fetch_attempt\<close> is the \<^verbatim>\<open>try\<close> body:
  \<open>Inl\<close> is an error thrown inside it, \<open>Inr\<close> the value it returns, with the lines it
  wrote.  \<^verbatim>\<open>response.ok\<close> holds for the statuses 200 to 299.
\<close>

definition fetch_attempt ::
  "(raw_repo \<Rightarrow> string) \<Rightarrow> host \<Rightarrow> string \<Rightarrow> console \<times> (string + script list)" where
  "fetch_attempt gen h address =
     (case fetch h address of
        FetchRejected message \<Rightarrow> ([], Inl message)
      | FetchResponse status body \<Rightarrow>
          if status = 403 then ([(Warn, ''GitHub API rate limit reached'')], Inr [])
          else if \<not> (200 \<le> status \<and> status \<le> 299)
          then ([], Inl (''GitHub API error: '' @ show_nat status))
          else (case body of
                  Inl message \<Rightarrow> ([], Inl message)
                | Inr data \<Rightarrow> ([], Inr (parseGitHubRepos gen (list_or_empty (items data))))))"

definition manager_fetchFromGitHub ::
  "(raw_repo \<Rightarrow> string) \<Rightarrow> host \<Rightarrow> world \<Rightarrow> manager \<Rightarrow> script list \<times> world" where
  "manager_fetchFromGitHub gen h w m =
     (if \<not> enableGitHubFetch (config m) then ([], w)
      else
        (let query = encodeURIComponent h (searchQuery (config m));
             address = githubApiBase (config m) @ ''/search/repositories?q='' @ query @
                   ''&sort=updated&per_page='' @ show_nat (maxResults (config m))
         in case fetch_attempt gen h address of
              (lines, Inr result) \<Rightarrow> (result, w\<lparr>console := console w @ lines\<rparr>)
            | (lines, Inl message) \<Rightarrow>
                ([], say Error (''Error fetching from GitHub: '' @ message)
                       (w\<lparr>console := console w @ lines\<rparr>))))"

text \<open>
  \<^verbatim>\<open>notifyUpdate()\<close>: each callback is called with \<^verbatim>\<open>this.scripts\<close> and
  \<^verbatim>\<open>this.lastUpdate\<close> inside its own \<^verbatim>\<open>try\<close>.
\<close>

definition notify_step :: "manager \<Rightarrow> world \<Rightarrow> callback \<Rightarrow> world" where
  "notify_step m w cb =
     (let w1 = w\<lparr>invoked := invoked w @ [(cb_id cb, scripts m, lastUpdate m)]\<rparr> in
      case cb_run cb (scripts m) (lastUpdate m) of
        None \<Rightarrow> w1
      | Some message \<Rightarrow> say Error (''Error in update callback: '' @ message) w1)"

definition notifyUpdate :: "world \<Rightarrow> manager \<Rightarrow> world" where
  "notifyUpdate w m = foldl (notify_step m) w (updateCallbacks m)"

text \<open>
  \<^verbatim>\<open>update()\<close>: the outcome, the world and the manager after the call.  The outcome
  is \<open>Inr\<close> the value the promise resolves to, or \<open>Inl\<close> the message of the error it
  rejects with.  \<^verbatim>\<open>this.saveToCache()\<close> is called outside any \<^verbatim>\<open>try\<close>, so an error
  that leaves it ends \<^verbatim>\<open>update()\<close> there, after \<^verbatim>\<open>lastUpdate\<close> was set and before
  \<^verbatim>\<open>notifyUpdate()\<close>.
\<close>

definition update ::
  "(raw_repo \<Rightarrow> string) \<Rightarrow> host \<Rightarrow> world \<Rightarrow> manager \<Rightarrow>
   (string + script list) \<times> world \<times> manager" where
  "update gen h w m =
     (let w1 = say Log ''Starting script update...'' w;
          fetched = manager_fetchFromGitHub gen h w1 m;
          githubScripts = fst fetched;
          w2 = snd fetched;
          m1 = (if length githubScripts > 0
                then m\<lparr>scripts := manager_mergeScripts (scripts m) githubScripts\<rparr>
                else m);
          m2 = m1\<lparr>lastUpdate := Some (toISOString h (Date_now h))\<rparr>
      in case saveToCache h w2 m2 of
           (Inl message, w3) \<Rightarrow> (Inl message, w3, m2)
         | (Inr saved, w3) \<Rightarrow>
             (let w4 = notifyUpdate w3 m2;
                  w5 = say Log (''Update complete. Total scripts: '' @
                                show_nat (length (scripts m2))) w4
              in (Inr (scripts m2), w5, m2)))"

section \<open>Time values of ISO-8601 strings\<close>

text \<open>
  The functions above take the host's date parser as a parameter.  For concrete inputs
  the following function gives the time value (milliseconds since the epoch) that
  \<^verbatim>\<open>new Date(s)\<close> has for a string in one of the UTC forms \<^verbatim>\<open>YYYY-MM-DD\<close>,
  \<^verbatim>\<open>YYYY-MM-DDTHH:mm:ssZ\<close> and \<^verbatim>\<open>YYYY-MM-DDTHH:mm:ss.sssZ\<close> of the language's
  date-time string format.  It is \<open>None\<close> on every other string; what a host makes of
  those is left to the host, and no theorem about all inputs depends on this function.
\<close>

definition is_digit :: "char \<Rightarrow> bool" where
  "is_digit c = (48 \<le> (of_char c :: nat) \<and> (of_char c :: nat) \<le> 57)"

definition digits_value :: "string \<Rightarrow> int option" where
  "digits_value s =
     (if s \<noteq> [] \<and> list_all is_digit s
      then Some (foldl (\<lambda>a c. 10 * a + (int (of_char c) - 48)) 0 s)
      else None)"

definition days_in_month :: "int \<Rightarrow> int \<Rightarrow> int" where
  "days_in_month y m =
     (if m = 2 then (if (y mod 4 = 0 \<and> y mod 100 \<noteq> 0) \<or> y mod 400 = 0 then 29 else 28)
      else if m = 4 \<or> m = 6 \<or> m = 9 \<or> m = 11 then 30 else 31)"

definition days_from_civil :: "int \<Rightarrow> int \<Rightarrow> int \<Rightarrow> int" where
  "days_from_civil y m d =
     (let y1 = (if m \<le> 2 then y - 1 else y);
          era = y1 div 400;
          yoe = y1 - era * 400;
          mp = (m + 9) mod 12;
          doy = (153 * mp + 2) div 5 + d - 1;
          doe = yoe * 365 + yoe div 4 - yoe div 100 + doy
      in era * 146097 + doe - 719468)"

definition iso_date :: "string \<Rightarrow> int option" where
  "iso_date s =
     (if length s = 10 \<and> s ! 4 = CHR ''-'' \<and> s ! 7 = CHR ''-''
      then (case (digits_value (take 4 s), digits_value (take 2 (drop 5 s)),
                  digits_value (drop 8 s)) of
              (Some y, Some m, Some d) \<Rightarrow>
                if 1 \<le> m \<and> m \<le> 12 \<and> 1 \<le> d \<and> d \<le> days_in_month y m
                then Some (days_from_civil y m d) else None
            | _ \<Rightarrow> None)
      else None)"

definition iso_clock :: "string \<Rightarrow> int option" where
  "iso_clock s =
     (if (length s = 10 \<or> (length s = 14 \<and> s ! 9 = CHR ''.'')) \<and>
         s ! 0 = CHR ''T'' \<and> s ! 3 = CHR '':'' \<and> s ! 6 = CHR '':'' \<and> last s = CHR ''Z''
      then (case (digits_value (take 2 (drop 1 s)), digits_value (take 2 (drop 4 s)),
                  digits_value (take 2 (drop 7 s)),
                  (if length s = 10 then Some 0 else digits_value (take 3 (drop 10 s)))) of
              (Some hh, Some mi, Some ss, Some ms) \<Rightarrow>
                if hh \<le> 23 \<and> mi \<le> 59 \<and> ss \<le> 59
                then Some (((hh * 60 + mi) * 60 + ss) * 1000 + ms) else None
            | _ \<Rightarrow> None)
      else None)"

definition iso_utc_time :: "string \<Rightarrow> int option" where
  "iso_utc_time s =
     (case iso_date (take 10 s) of
        None \<Rightarrow> None
      | Some days \<Rightarrow>
          if length s = 10 then Some (days * 86400000)
          else (case iso_clock (drop 10 s) of
                  None \<Rightarrow> None
                | Some ms \<Rightarrow> Some (days * 86400000 + ms)))"

section \<open>Notions used in the statements\<close>

text \<open>
  \<open>case_variant q q'\<close>: the two strings have the same length and, at every position,
  the same character or the two cases of one letter.
\<close>

definition case_variant :: "string \<Rightarrow> string \<Rightarrow> bool" where
  "case_variant q q' =
     list_all2 (\<lambda>a b. a = b \<or> lower_char a = b \<or> a = lower_char b) q q'"

text \<open>\<open>substring q s\<close>: \<open>q\<close> occurs in \<open>s\<close> as a contiguous block.\<close>

definition substring :: "string \<Rightarrow> string \<Rightarrow> bool" where
  "substring q s = (\<exists>before after. s = before @ q @ after)"

text \<open>
  A failed fetch of the browser manager: the request is rejected, the status is 403
  or outside 200 to 299, or the body is not JSON.
\<close>

definition fetch_failed :: "fetch_outcome \<Rightarrow> bool" where
  "fetch_failed outcome =
     (case outcome of
        FetchRejected message \<Rightarrow> True
      | FetchResponse status body \<Rightarrow>
          status = 403 \<or> status < 200 \<or> 299 < status \<or> isl body)"

section \<open>Example data\<close>

text \<open>Records with a given id, title and \<^verbatim>\<open>lastModified\<close>; upstream items.\<close>

definition example_script :: "string \<Rightarrow> string \<Rightarrow> string \<Rightarrow> script" where
  "example_script i t modified =
     \<lparr> script_id = i, title = t, category = ''Utilities'',
       description = ''An example script'', tags = Some [''example''],
       difficulty = ''Beginner'', dateAdded = ''2024-01-01'', lastModified = modified,
       source = ''local'', url = None, stars = None, forks = None, owner = None,
       code = [] \<rparr>"

definition example_manifest :: "script list \<Rightarrow> manifest" where
  "example_manifest xs =
     \<lparr> version = ''1.0.0'', lastUpdated = None, totalScripts = None,
       manifest_scripts = xs, categories = Some [] \<rparr>"

definition example_repo :: "nat \<Rightarrow> string \<Rightarrow> string \<Rightarrow> string list option \<Rightarrow> raw_repo" where
  "example_repo i n updated ts =
     \<lparr> repo_id = i, name = n, full_name = ''someone/'' @ n,
       html_url = ''https://github.com/someone/'' @ n, repo_description = None,
       stargazers_count = 3, forks_count = 1, language = Some ''AutoHotkey'',
       topics = ts, updated_at = updated, created_at = ''2023-06-01T00:00:00Z'',
       pushed_at = updated,
       repo_owner = \<lparr> login = ''someone'', avatar_url = [], owner_html_url = [] \<rparr>,
       default_branch = ''main'', open_issues_count = 0, license = None,
       archived = False, fork = False,
       clone_url = ''https://github.com/someone/'' @ n @ ''.git'' \<rparr>"

text \<open>
  The configuration of a manager constructed without options, and managers with it.
\<close>

definition default_config :: config where
  "default_config =
     \<lparr> manifestPath = ''scripts/ahk-scripts.json'', cacheKey = ''ahk_scripts_cache'',
       cacheTTL = 300000, githubApiBase = ''https://api.github.com'',
       searchQuery = ''autohotkey v2 language:AutoHotkey'', maxResults = 50,
       enableGitHubFetch = True \<rparr>"

definition example_manager :: "script list \<Rightarrow> callback list \<Rightarrow> manager" where
  "example_manager xs cbs =
     \<lparr> config = default_config, scripts = xs, lastUpdate = None, updateCallbacks = cbs \<rparr>"

text \<open>
  A host on which every request fails, at the clock time 2024-01-01T00:05:00Z; a host
  that answers the second request of a run with status 403; a host whose cache entry
  was written 500 seconds before its clock time.
\<close>

definition quiet_host :: host where
  "quiet_host =
     \<lparr> encodeURIComponent = (\<lambda>s. s),
       https_request = (\<lambda>n path. RequestError ''getaddrinfo ENOTFOUND api.github.com''),
       JSON_parse = (\<lambda>s. Inl ''Unexpected end of JSON input''),
       fetch = (\<lambda>address. FetchRejected ''Failed to fetch''),
       Date_now = 1704067500000,
       toISOString = (\<lambda>t. ''2024-01-01T00:05:00.000Z''),
       JSON_parse_cache = (\<lambda>s. Inl ''Unexpected end of JSON input''),
       JSON_stringify_cache = (\<lambda>entry. ''{}'') \<rparr>"

definition rate_limited_host :: host where
  "rate_limited_host =
     quiet_host
       \<lparr> https_request := (\<lambda>n path.
            if n = 0 then HttpResponse 200 ''A''
            else if n = 1 then HttpResponse 403 ''rate limit exceeded''
            else HttpResponse 200 ''C''),
         JSON_parse := (\<lambda>s.
            if s = ''A''
            then Inr \<lparr> items = Some [example_repo 1 ''lib'' ''2024-01-01T00:00:00Z'' None] \<rparr>
            else if s = ''C''
            then Inr \<lparr> items = Some [example_repo 3 ''tool'' ''2024-01-03T00:00:00Z'' None] \<rparr>
            else Inl ''Unexpected token'') \<rparr>"

definition stale_cache_host :: host where
  "stale_cache_host =
     quiet_host
       \<lparr> JSON_parse_cache := (\<lambda>s.
            Inr ([example_script ''c'' ''cached'' ''2024-01-01''], 1704067000000)) \<rparr>"

text \<open>
  A world with a given store and nothing written yet; a store holding one cache entry;
  a callback that throws and one that returns.
\<close>

definition example_world :: "storage_access \<Rightarrow> world" where
  "example_world st = \<lparr> localStorage = st, console = [], invoked = [] \<rparr>"

definition example_storage :: "string \<Rightarrow> bool \<Rightarrow> storage" where
  "example_storage entry ok =
     \<lparr> stored = [''ahk_scripts_cache'' \<mapsto> entry], writable = ok \<rparr>"

definition throwing_callback :: callback where
  "throwing_callback = \<lparr> cb_id = 1, cb_run = (\<lambda>xs t. Some ''render failed'') \<rparr>"

definition quiet_callback :: callback where
  "quiet_callback = \<lparr> cb_id = 2, cb_run = (\<lambda>xs t. None) \<rparr>"

section \<open>Merging as a sequence of upserts\<close>

text \<open>
  A proof device: \<open>upsert newer xs s\<close> replaces the first record of \<open>xs\<close> with the id of
  \<open>s\<close> when \<open>s\<close> is newer, keeps \<open>xs\<close> when it is not, and appends \<open>s\<close> when no record
  has its id.  Both merge loops are shown below to compute a left fold of it.
  \<open>settled newer xs s\<close>: the first record of \<open>xs\<close> with the id of \<open>s\<close> exists and \<open>s\<close>
  is not newer than it.
\<close>

fun upsert :: "(script \<Rightarrow> script \<Rightarrow> bool) \<Rightarrow> script list \<Rightarrow> script \<Rightarrow> script list" where
  "upsert newer [] s = [s]"
| "upsert newer (e # es) s =
     (if script_id e = script_id s then (if newer s e then s # es else e # es)
      else e # upsert newer es s)"

fun settled :: "(script \<Rightarrow> script \<Rightarrow> bool) \<Rightarrow> script list \<Rightarrow> script \<Rightarrow> bool" where
  "settled newer [] s = False"
| "settled newer (e # es) s =
     (if script_id e = script_id s then \<not> newer s e else settled newer es s)"

definition newer_string :: "script \<Rightarrow> script \<Rightarrow> bool" where
  "newer_string a b = js_string_gt (lastModified a) (lastModified b)"

definition newer_date :: "(string \<Rightarrow> int option) \<Rightarrow> script \<Rightarrow> script \<Rightarrow> bool" where
  "newer_date date a b = js_num_gt (date (lastModified a)) (date (lastModified b))"

section \<open>Facts about \<open>findIndex\<close> and \<open>upsert\<close>\<close>

lemma findIndex_some:
  "\<exists>x\<in>set xs. p x \<Longrightarrow> 0 \<le> findIndex p xs \<and> nat (findIndex p xs) < length xs"
proof (induction xs)
  case Nil
  then show ?case by simp
next
  case (Cons a xs)
  show ?case
  proof (cases "p a")
    case True
    then show ?thesis by simp
  next
    case False
    with Cons.prems have "\<exists>x\<in>set xs. p x" by auto
    from Cons.IH[OF this] False show ?thesis by (auto simp add: Let_def)
  qed
qed

lemma upsert_absent:
  "script_id s \<notin> script_id ` set xs \<Longrightarrow> upsert newer xs s = xs @ [s]"
  by (induction xs) auto

lemma upsert_present:
  "script_id s \<in> script_id ` set xs \<Longrightarrow>
   upsert newer xs s =
     (if newer s (xs ! nat (findIndex (\<lambda>e. script_id e = script_id s) xs))
      then xs[nat (findIndex (\<lambda>e. script_id e = script_id s) xs) := s] else xs)"
proof (induction xs)
  case Nil
  then show ?case by simp
next
  case (Cons e es)
  show ?case
  proof (cases "script_id e = script_id s")
    case True
    then show ?thesis by simp
  next
    case False
    with Cons.prems have mem: "script_id s \<in> script_id ` set es" by auto
    then have "\<exists>x\<in>set es. script_id x = script_id s" by auto
    from findIndex_some[of es "\<lambda>e. script_id e = script_id s", OF this]
    have ge: "0 \<le> findIndex (\<lambda>e. script_id e = script_id s) es" by simp
    then have n: "nat (findIndex (\<lambda>e. script_id e = script_id s) es + 1)
        = Suc (nat (findIndex (\<lambda>e. script_id e = script_id s) es))" by simp
    show ?thesis using False Cons.IH[OF mem] ge n by (simp add: Let_def)
  qed
qed

lemma upsert_ids:
  "script_id ` set (upsert newer xs s) = insert (script_id s) (script_id ` set xs)"
  by (induction xs) auto

lemma upsert_map_ids:
  "map script_id (upsert newer xs s) =
     (if script_id s \<in> script_id ` set xs then map script_id xs
      else map script_id xs @ [script_id s])"
  by (induction xs) auto

lemma upsert_distinct:
  "distinct (map script_id xs) \<Longrightarrow> distinct (map script_id (upsert newer xs s))"
  by (simp add: upsert_map_ids)

lemma foldl_upsert_distinct:
  "distinct (map script_id xs) \<Longrightarrow> distinct (map script_id (foldl (upsert newer) xs batch))"
  by (induction batch arbitrary: xs) (simp_all add: upsert_distinct)

section \<open>Both loops are folds of \<open>upsert\<close>\<close>

lemma manager_merge_step_upsert:
  "manager_merge_step (script_id ` set xs, xs) s =
     (script_id ` set (upsert newer_string xs s), upsert newer_string xs s)"
proof (cases "script_id s \<in> script_id ` set xs")
  case True
  then have "\<exists>x\<in>set xs. script_id x = script_id s" by auto
  from findIndex_some[of xs "\<lambda>e. script_id e = script_id s", OF this]
  have ge: "0 \<le> findIndex (\<lambda>e. script_id e = script_id s) xs" by simp
  have ids: "script_id ` set (upsert newer_string xs s) = script_id ` set xs"
    using True by (simp add: upsert_ids insert_absorb)
  show ?thesis
    unfolding ids using True ge
    by (simp add: manager_merge_step_def Let_def upsert_present newer_string_def)
next
  case False
  then show ?thesis
    by (simp add: manager_merge_step_def Let_def upsert_absent)
qed

lemma manager_foldl_upsert:
  "foldl manager_merge_step (script_id ` set xs, xs) batch =
     (script_id ` set (foldl (upsert newer_string) xs batch),
      foldl (upsert newer_string) xs batch)"
  by (induction batch arbitrary: xs) (simp_all add: manager_merge_step_upsert)

lemma manager_mergeScripts_upsert:
  "manager_mergeScripts xs batch = foldl (upsert newer_string) xs batch"
  by (simp add: manager_mergeScripts_def manager_foldl_upsert)

lemma build_merge_step_upsert:
  "\<exists>a' u'. build_merge_step date (script_id ` set xs, xs, a, u) s =
     (script_id ` set (upsert (newer_date date) xs s), upsert (newer_date date) xs s, a', u')"
proof (cases "script_id s \<in> script_id ` set xs")
  case True
  then have "\<exists>x\<in>set xs. script_id x = script_id s" by auto
  from findIndex_some[of xs "\<lambda>e. script_id e = script_id s", OF this]
  have ge: "0 \<le> findIndex (\<lambda>e. script_id e = script_id s) xs" by simp
  have ids: "script_id ` set (upsert (newer_date date) xs s) = script_id ` set xs"
    using True by (simp add: upsert_ids insert_absorb)
  show ?thesis
    unfolding ids using True ge
    by (simp add: build_merge_step_def Let_def upsert_present newer_date_def)
next
  case False
  then show ?thesis
    by (simp add: build_merge_step_def Let_def upsert_absent)
qed

lemma build_foldl_upsert:
  "\<exists>a' u'. foldl (build_merge_step date) (script_id ` set xs, xs, a, u) batch =
     (script_id ` set (foldl (upsert (newer_date date)) xs batch),
      foldl (upsert (newer_date date)) xs batch, a', u')"
proof (induction batch arbitrary: xs a u)
  case Nil
  then show ?case by simp
next
  case (Cons s batch)
  from build_merge_step_upsert[of date xs a u s] obtain a1 u1 where
    step: "build_merge_step date (script_id ` set xs, xs, a, u) s =
       (script_id ` set (upsert (newer_date date) xs s), upsert (newer_date date) xs s, a1, u1)"
    by blast
  from Cons.IH[of "upsert (newer_date date) xs s" a1 u1] step show ?case by simp
qed

lemma mergeScripts_upsert:
  "manifest_scripts (fst (mergeScripts date manifest batch)) =
     foldl (upsert (newer_date date)) (manifest_scripts manifest) batch"
proof -
  from build_foldl_upsert[of date "manifest_scripts manifest" 0 0 batch] obtain a' u' where
    "foldl (build_merge_step date)
       (script_id ` set (manifest_scripts manifest), manifest_scripts manifest, 0, 0) batch =
     (script_id ` set (foldl (upsert (newer_date date)) (manifest_scripts manifest) batch),
      foldl (upsert (newer_date date)) (manifest_scripts manifest) batch, a', u')"
    by blast
  then show ?thesis by (simp add: mergeScripts_def)
qed

lemma mergeScripts_frame:
  "fst (mergeScripts date manifest batch) =
     manifest\<lparr>manifest_scripts := manifest_scripts (fst (mergeScripts date manifest batch))\<rparr>"
  by (simp add: mergeScripts_def split: prod.splits)

section \<open>Idempotence of a fold of upserts\<close>

lemma upsert_settled: "settled newer xs s \<Longrightarrow> upsert newer xs s = xs"
  by (induction xs) (auto split: if_splits)

lemma settled_after_upsert:
  assumes irrefl: "\<And>a. \<not> newer a a"
  shows "settled newer (upsert newer xs s) s"
  using irrefl by (induction xs) auto

lemma settled_upsert_other:
  assumes trans: "\<And>a b c. newer a b \<Longrightarrow> newer b c \<Longrightarrow> newer a c"
    and "settled newer xs s"
  shows "settled newer (upsert newer xs t) s"
  using assms(2)
proof (induction xs)
  case Nil
  then show ?case by simp
next
  case (Cons e es)
  then show ?case using trans by (auto split: if_splits)
qed

lemma settled_foldl:
  assumes trans: "\<And>a b c. newer a b \<Longrightarrow> newer b c \<Longrightarrow> newer a c"
  shows "settled newer xs s \<Longrightarrow> settled newer (foldl (upsert newer) xs batch) s"
proof (induction batch arbitrary: xs)
  case Nil
  then show ?case by simp
next
  case (Cons t batch)
  from settled_upsert_other[of newer xs s t] trans Cons.prems
  have "settled newer (upsert newer xs t) s" by blast
  from Cons.IH[OF this] show ?case by simp
qed

lemma all_settled_after_foldl:
  assumes irrefl: "\<And>a. \<not> newer a a"
    and trans: "\<And>a b c. newer a b \<Longrightarrow> newer b c \<Longrightarrow> newer a c"
  shows "s \<in> set batch \<Longrightarrow> settled newer (foldl (upsert newer) xs batch) s"
proof (induction batch arbitrary: xs)
  case Nil
  then show ?case by simp
next
  case (Cons t batch)
  show ?case
  proof (cases "s = t")
    case True
    have "settled newer (upsert newer xs t) t"
      using settled_after_upsert[of newer xs t] irrefl by blast
    from settled_foldl[of newer "upsert newer xs t" t batch] trans this
    have "settled newer (foldl (upsert newer) (upsert newer xs t) batch) t" by blast
    with True show ?thesis by simp
  next
    case False
    with Cons.prems have "s \<in> set batch" by simp
    from Cons.IH[OF this] show ?thesis by simp
  qed
qed

lemma foldl_upsert_all_settled:
  "\<forall>s\<in>set batch. settled newer ys s \<Longrightarrow> foldl (upsert newer) ys batch = ys"
  by (induction batch) (simp_all add: upsert_settled)

lemma foldl_upsert_idem:
  assumes irrefl: "\<And>a. \<not> newer a a"
    and trans: "\<And>a b c. newer a b \<Longrightarrow> newer b c \<Longrightarrow> newer a c"
  shows "foldl (upsert newer) (foldl (upsert newer) xs batch) batch = foldl (upsert newer) xs batch"
proof -
  have "\<forall>s\<in>set batch. settled newer (foldl (upsert newer) xs batch) s"
    using all_settled_after_foldl[of newer _ batch xs] irrefl trans by blast
  then show ?thesis by (rule foldl_upsert_all_settled)
qed

section \<open>The two comparisons are strict orders\<close>

lemma js_string_lt_irrefl: "\<not> js_string_lt a a"
  by (induction a) auto

lemma js_string_lt_trans: "js_string_lt a b \<Longrightarrow> js_string_lt b c \<Longrightarrow> js_string_lt a c"
proof (induction a b arbitrary: c rule: js_string_lt.induct)
  case 1
  then show ?case by simp
next
  case (2 y ys)
  then show ?case by (cases c) auto
next
  case (3 x xs)
  then show ?case by simp
next
  case (4 x xs y ys)
  then show ?case by (cases c) auto
qed

lemma newer_string_irrefl: "\<not> newer_string a a"
  by (simp add: newer_string_def js_string_gt_def js_string_lt_irrefl)

lemma newer_string_trans: "newer_string a b \<Longrightarrow> newer_string b c \<Longrightarrow> newer_string a c"
  unfolding newer_string_def js_string_gt_def by (rule js_string_lt_trans)

lemma newer_date_irrefl: "\<not> newer_date date a a"
  by (simp add: newer_date_def js_num_gt_def split: option.splits)

lemma newer_date_trans:
  "newer_date date a b \<Longrightarrow> newer_date date b c \<Longrightarrow> newer_date date a c"
  by (auto simp add: newer_date_def js_num_gt_def split: option.splits)

section \<open>The claims about merging\<close>

lemma mergeScripts_replace_only_if_newer:
  assumes "script_id incoming \<in> script_id ` set (manifest_scripts manifest)"
  shows "manifest_scripts (fst (mergeScripts date manifest [incoming])) =
     (let i = nat (findIndex (\<lambda>e. script_id e = script_id incoming) (manifest_scripts manifest));
          existing = manifest_scripts manifest ! i
      in if js_num_gt (date (lastModified incoming)) (date (lastModified existing))
         then (manifest_scripts manifest)[i := incoming]
         else manifest_scripts manifest)"
  using assms by (simp add: mergeScripts_upsert upsert_present newer_date_def Let_def)

text \<open>
  C1.  For a record whose id is already in the base, the merge of the browser manager
  compares the two \<^verbatim>\<open>lastModified\<close> values as strings.  The existing record
  \<^verbatim>\<open>2024-01-01T00:00:00.500Z\<close> is half a second newer than the incoming record
  \<^verbatim>\<open>2024-01-01T00:00:00Z\<close>, and yet the incoming record replaces it, because \<^verbatim>\<open>Z\<close>
  is greater than \<^verbatim>\<open>.\<close> as a character.  The merge of the build script, which
  compares time values, keeps the existing record on the same input.
\<close>

theorem manager_merge_compares_strings:
  "manager_mergeScripts
     [example_script ''a'' ''old'' ''2024-01-01T00:00:00.500Z'']
     [example_script ''a'' ''new'' ''2024-01-01T00:00:00Z'']
   = [example_script ''a'' ''new'' ''2024-01-01T00:00:00Z''] \<and>
   iso_utc_time ''2024-01-01T00:00:00.500Z'' = Some 1704067200500 \<and>
   iso_utc_time ''2024-01-01T00:00:00Z'' = Some 1704067200000 \<and>
   js_num_gt (iso_utc_time ''2024-01-01T00:00:00.500Z'') (iso_utc_time ''2024-01-01T00:00:00Z'') \<and>
   manifest_scripts (fst (mergeScripts iso_utc_time
     (example_manifest [example_script ''a'' ''old'' ''2024-01-01T00:00:00.500Z''])
     [example_script ''a'' ''new'' ''2024-01-01T00:00:00Z'']))
   = [example_script ''a'' ''old'' ''2024-01-01T00:00:00.500Z'']"
proof -
  have t_old: "iso_utc_time ''2024-01-01T00:00:00.500Z'' = Some 1704067200500"
    by code_simp
  have t_new: "iso_utc_time ''2024-01-01T00:00:00Z'' = Some 1704067200000"
    by code_simp
  have m: "manager_mergeScripts
     [example_script ''a'' ''old'' ''2024-01-01T00:00:00.500Z'']
     [example_script ''a'' ''new'' ''2024-01-01T00:00:00Z'']
   = [example_script ''a'' ''new'' ''2024-01-01T00:00:00Z'']"
    by (simp add: manager_mergeScripts_upsert newer_string_def js_string_gt_def example_script_def)
  have b: "manifest_scripts (fst (mergeScripts iso_utc_time
     (example_manifest [example_script ''a'' ''old'' ''2024-01-01T00:00:00.500Z''])
     [example_script ''a'' ''new'' ''2024-01-01T00:00:00Z'']))
   = [example_script ''a'' ''old'' ''2024-01-01T00:00:00.500Z'']"
    by (simp add: mergeScripts_upsert newer_date_def js_num_gt_def example_script_def
        example_manifest_def t_old t_new)
  from m t_old t_new b show ?thesis by (simp add: js_num_gt_def)
qed

text \<open>
  C2.  Merging is idempotent: merging a batch a second time into the result of the
  first merge changes no record, for every base and every batch, in the browser
  manager and in the build script (where the whole manifest is unchanged).
\<close>

theorem merge_idempotent:
  "manager_mergeScripts (manager_mergeScripts base batch) batch =
     manager_mergeScripts base batch \<and>
   fst (mergeScripts date (fst (mergeScripts date manifest batch)) batch) =
     fst (mergeScripts date manifest batch)"
proof
  show "manager_mergeScripts (manager_mergeScripts base batch) batch =
      manager_mergeScripts base batch"
    unfolding manager_mergeScripts_upsert
    by (rule foldl_upsert_idem[OF newer_string_irrefl newer_string_trans])
next
  let ?m1 = "fst (mergeScripts date manifest batch)"
  have "manifest_scripts (fst (mergeScripts date ?m1 batch)) = manifest_scripts ?m1"
    unfolding mergeScripts_upsert
    by (rule foldl_upsert_idem[OF newer_date_irrefl newer_date_trans])
  then have "fst (mergeScripts date ?m1 batch) = ?m1"
    using mergeScripts_frame[of date ?m1 batch] by simp
  then show "fst (mergeScripts date ?m1 batch) = ?m1" .
qed

theorem merge_idempotent_witness:
  "manager_mergeScripts
     (manager_mergeScripts [example_script ''a'' ''old'' ''2024-01-01'']
        [example_script ''a'' ''new'' ''2024-01-02'', example_script ''b'' ''other'' ''2024-01-01''])
     [example_script ''a'' ''new'' ''2024-01-02'', example_script ''b'' ''other'' ''2024-01-01'']
   = [example_script ''a'' ''new'' ''2024-01-02'', example_script ''b'' ''other'' ''2024-01-01'']"
proof -
  have first: "manager_mergeScripts [example_script ''a'' ''old'' ''2024-01-01'']
        [example_script ''a'' ''new'' ''2024-01-02'', example_script ''b'' ''other'' ''2024-01-01'']
      = [example_script ''a'' ''new'' ''2024-01-02'', example_script ''b'' ''other'' ''2024-01-01'']"
    by (simp add: manager_mergeScripts_upsert newer_string_def js_string_gt_def example_script_def)
  from merge_idempotent[of "[example_script ''a'' ''old'' ''2024-01-01'']"
      "[example_script ''a'' ''new'' ''2024-01-02'', example_script ''b'' ''other'' ''2024-01-01'']"]
  show ?thesis unfolding first by simp
qed

text \<open>
  C3.  Merging keeps ids unique: when no two records of the base share an id, no two
  records of the merged collection do, for every batch, in the browser manager and in
  the build script.
\<close>

theorem merge_keeps_ids_unique:
  assumes "distinct (map script_id base)"
  shows "distinct (map script_id (manager_mergeScripts base batch)) \<and>
         distinct (map script_id
           (manifest_scripts (fst (mergeScripts date (manifest\<lparr>manifest_scripts := base\<rparr>) batch))))"
  using assms by (simp add: manager_mergeScripts_upsert mergeScripts_upsert foldl_upsert_distinct)

theorem merge_keeps_ids_unique_witness:
  "distinct (map script_id [example_script ''a'' ''old'' ''2024-01-01'']) \<and>
   distinct (map script_id
     (manager_mergeScripts [example_script ''a'' ''old'' ''2024-01-01'']
        [example_script ''b'' ''first'' ''2024-01-01'', example_script ''a'' ''new'' ''2024-01-02'',
         example_script ''b'' ''second'' ''2024-01-03'']))"
proof -
  have h: "distinct (map script_id [example_script ''a'' ''old'' ''2024-01-01''])"
    by simp
  from merge_keeps_ids_unique[OF h] h show ?thesis by blast
qed

section \<open>The claims about the normalizers\<close>

lemma slice0_take: "0 \<le> k \<Longrightarrow> slice0 xs k = take (nat k) xs"
  by (auto simp add: slice0_def Let_def min_def)

lemma build_normalize_tags:
  "map tags (build_normalize gen repos) =
     map (\<lambda>repo. Some (take 8 (''github'' # ''repository'' # list_or_empty (topics repo)))) repos"
  by (simp add: build_normalize_def slice0_take)

lemma build_normalize_tags_bound:
  "s \<in> set (build_normalize gen repos) \<Longrightarrow> \<exists>ts. tags s = Some ts \<and> length ts \<le> 8"
  by (auto simp add: build_normalize_def slice0_take)

text \<open>
  C6.  \<^verbatim>\<open>parseGitHubRepos\<close> of the browser manager does not cut the tags: a
  repository with seven topics gets nine tags.  The normalizer of the build script
  cuts the same sequence to eight.
\<close>

theorem parseGitHubRepos_tags_not_truncated:
  "map tags (parseGitHubRepos (\<lambda>repo. [])
     [example_repo 1 ''lib'' ''2024-01-01T00:00:00Z''
        (Some [''t1'', ''t2'', ''t3'', ''t4'', ''t5'', ''t6'', ''t7''])])
   = [Some [''github'', ''repository'', ''t1'', ''t2'', ''t3'', ''t4'', ''t5'', ''t6'', ''t7'']] \<and>
   length [''github'', ''repository'', ''t1'', ''t2'', ''t3'', ''t4'', ''t5'', ''t6'', ''t7''] = 9 \<and>
   map tags (build_normalize (\<lambda>repo. [])
     [example_repo 1 ''lib'' ''2024-01-01T00:00:00Z''
        (Some [''t1'', ''t2'', ''t3'', ''t4'', ''t5'', ''t6'', ''t7''])])
   = [Some [''github'', ''repository'', ''t1'', ''t2'', ''t3'', ''t4'', ''t5'', ''t6'']]"
  by (simp add: parseGitHubRepos_def build_normalize_tags example_repo_def list_or_empty_def)

section \<open>The claim about deduplication\<close>

lemma dedup_filter_ids:
  "feed_id ` set (dedup_filter seen repos) = feed_id ` set repos - seen"
  by (induction repos arbitrary: seen) auto

lemma dedup_filter_distinct: "distinct (map feed_id (dedup_filter seen repos))"
  by (induction repos arbitrary: seen) (auto simp add: dedup_filter_ids)

lemma dedup_filter_first:
  "r \<in> set (dedup_filter seen repos) \<Longrightarrow> find (\<lambda>x. feed_id x = feed_id r) repos = Some r"
proof (induction repos arbitrary: seen)
  case Nil
  then show ?case by simp
next
  case (Cons repo repos)
  show ?case
  proof (cases "feed_id repo \<in> seen")
    case True
    with Cons.prems have mem: "r \<in> set (dedup_filter seen repos)" by simp
    then have "feed_id r \<in> feed_id ` set (dedup_filter seen repos)" by blast
    then have "feed_id r \<notin> seen" by (simp add: dedup_filter_ids)
    with True have "feed_id repo \<noteq> feed_id r" by auto
    with Cons.IH[OF mem] show ?thesis by simp
  next
    case False
    show ?thesis
    proof (cases "r = repo")
      case True
      then show ?thesis by simp
    next
      case neq: False
      with False Cons.prems
      have mem: "r \<in> set (dedup_filter (insert (feed_id repo) seen) repos)" by simp
      then have "feed_id r \<in> feed_id ` set (dedup_filter (insert (feed_id repo) seen) repos)"
        by blast
      then have "feed_id repo \<noteq> feed_id r" by (auto simp add: dedup_filter_ids)
      with Cons.IH[OF mem] show ?thesis by simp
    qed
  qed
qed

text \<open>
  C5, as amended.  \<^verbatim>\<open>deduplicateRepos\<close> keeps exactly one record per distinct id of
  the batch, and the record it keeps is the first one of the batch with that id,
  whatever the update times are.
\<close>

theorem deduplicateRepos_keeps_first:
  "distinct (map feed_id (deduplicateRepos repos)) \<and>
   feed_id ` set (deduplicateRepos repos) = feed_id ` set repos \<and>
   (\<forall>r\<in>set (deduplicateRepos repos). find (\<lambda>x. feed_id x = feed_id r) repos = Some r)"
  by (simp add: deduplicateRepos_def dedup_filter_distinct dedup_filter_ids dedup_filter_first)

theorem deduplicateRepos_keeps_first_witness:
  "deduplicateRepos
     [normalizeRepo (example_repo 7 ''lib'' ''2024-01-01T00:00:00Z'' None),
      normalizeRepo (example_repo 8 ''tool'' ''2024-01-05T00:00:00Z'' None),
      normalizeRepo (example_repo 7 ''lib'' ''2024-01-02T00:00:00Z'' None)]
   = [normalizeRepo (example_repo 7 ''lib'' ''2024-01-01T00:00:00Z'' None),
      normalizeRepo (example_repo 8 ''tool'' ''2024-01-05T00:00:00Z'' None)] \<and>
   find (\<lambda>x. feed_id x = 7)
     [normalizeRepo (example_repo 7 ''lib'' ''2024-01-01T00:00:00Z'' None),
      normalizeRepo (example_repo 8 ''tool'' ''2024-01-05T00:00:00Z'' None),
      normalizeRepo (example_repo 7 ''lib'' ''2024-01-02T00:00:00Z'' None)]
   = Some (normalizeRepo (example_repo 7 ''lib'' ''2024-01-01T00:00:00Z'' None))"
proof -
  let ?a = "normalizeRepo (example_repo 7 ''lib'' ''2024-01-01T00:00:00Z'' None)"
  let ?b = "normalizeRepo (example_repo 8 ''tool'' ''2024-01-05T00:00:00Z'' None)"
  let ?c = "normalizeRepo (example_repo 7 ''lib'' ''2024-01-02T00:00:00Z'' None)"
  have ids: "feed_id ?a = 7" "feed_id ?b = 8" "feed_id ?c = 7"
    by (simp_all add: normalizeRepo_def example_repo_def)
  have d: "deduplicateRepos [?a, ?b, ?c] = [?a, ?b]"
    by (simp add: deduplicateRepos_def ids)
  have "\<forall>r\<in>set (deduplicateRepos [?a, ?b, ?c]). find (\<lambda>x. feed_id x = feed_id r) [?a, ?b, ?c] = Some r"
    using deduplicateRepos_keeps_first[of "[?a, ?b, ?c]"] by blast
  then have "find (\<lambda>x. feed_id x = feed_id ?a) [?a, ?b, ?c] = Some ?a"
    unfolding d by simp
  with d ids show ?thesis by simp
qed

text \<open>
  The claim C5 as stated fails: of two records with the same id the first is kept,
  also when the second was updated a day later.
\<close>

theorem deduplicateRepos_keeps_older:
  "deduplicateRepos
     [normalizeRepo (example_repo 7 ''lib'' ''2024-01-01T00:00:00Z'' None),
      normalizeRepo (example_repo 7 ''lib'' ''2024-01-02T00:00:00Z'' None)]
   = [normalizeRepo (example_repo 7 ''lib'' ''2024-01-01T00:00:00Z'' None)] \<and>
   feed_id (normalizeRepo (example_repo 7 ''lib'' ''2024-01-01T00:00:00Z'' None)) =
   feed_id (normalizeRepo (example_repo 7 ''lib'' ''2024-01-02T00:00:00Z'' None)) \<and>
   iso_utc_time (feed_updated_at
     (normalizeRepo (example_repo 7 ''lib'' ''2024-01-01T00:00:00Z'' None))) = Some 1704067200000 \<and>
   iso_utc_time (feed_updated_at
     (normalizeRepo (example_repo 7 ''lib'' ''2024-01-02T00:00:00Z'' None))) = Some 1704153600000 \<and>
   js_num_gt
     (iso_utc_time (feed_updated_at
        (normalizeRepo (example_repo 7 ''lib'' ''2024-01-02T00:00:00Z'' None))))
     (iso_utc_time (feed_updated_at
        (normalizeRepo (example_repo 7 ''lib'' ''2024-01-01T00:00:00Z'' None))))"
proof -
  have t1: "iso_utc_time ''2024-01-01T00:00:00Z'' = Some 1704067200000" by code_simp
  have t2: "iso_utc_time ''2024-01-02T00:00:00Z'' = Some 1704153600000" by code_simp
  show ?thesis
    by (simp add: deduplicateRepos_def normalizeRepo_def example_repo_def t1 t2 js_num_gt_def)
qed

section \<open>The claim about search\<close>

lemma lower_char_idem: "lower_char (lower_char c) = lower_char c"
  by (simp add: lower_char_def Let_def)

lemma case_variant_toLowerCase: "case_variant q q' \<Longrightarrow> toLowerCase q = toLowerCase q'"
  unfolding case_variant_def toLowerCase_def
  by (induction q q' rule: list_all2_induct) (auto simp add: lower_char_idem)

lemma startsWith_iff: "startsWith s q \<longleftrightarrow> (\<exists>after. s = q @ after)"
  by (induction s q rule: startsWith.induct) auto

lemma str_includes_substring: "str_includes s q \<longleftrightarrow> substring q s"
proof (induction s)
  case Nil
  then show ?case by (simp add: substring_def)
next
  case (Cons c cs)
  have "substring q (c # cs) \<longleftrightarrow> (\<exists>after. c # cs = q @ after) \<or> substring q cs"
  proof
    assume "substring q (c # cs)"
    then obtain before after where eq: "c # cs = before @ q @ after"
      by (auto simp add: substring_def)
    show "(\<exists>after. c # cs = q @ after) \<or> substring q cs"
    proof (cases before)
      case Nil
      with eq show ?thesis by auto
    next
      case (Cons b bs)
      with eq have "cs = bs @ q @ after" by simp
      then show ?thesis by (auto simp add: substring_def)
    qed
  next
    assume "(\<exists>after. c # cs = q @ after) \<or> substring q cs"
    then show "substring q (c # cs)"
    proof
      assume "\<exists>after. c # cs = q @ after"
      then obtain after where "c # cs = [] @ q @ after" by auto
      then show ?thesis unfolding substring_def by blast
    next
      assume "substring q cs"
      then obtain before after where "cs = before @ q @ after"
        by (auto simp add: substring_def)
      then have "c # cs = (c # before) @ q @ after" by simp
      then show ?thesis unfolding substring_def by blast
    qed
  qed
  with Cons.IH show ?case by (simp add: startsWith_iff)
qed

text \<open>
  C8, as amended.  Search is case-insensitive in the sense of \<^verbatim>\<open>toLowerCase\<close>: two
  queries with the same lower-cased form select the same records, in the same order,
  and so do a query and any variant of it that differs only in the case of individual
  letters.  A record is selected exactly when the lower-cased query is a substring of
  its lower-cased title, of its lower-cased description, or of one of its lower-cased
  tags.
\<close>

theorem search_case_insensitive:
  "(toLowerCase q = toLowerCase q' \<longrightarrow> search m q = search m q') \<and>
   (case_variant q q' \<longrightarrow> search m q = search m q') \<and>
   (\<forall>s. s \<in> set (search m q) \<longleftrightarrow>
       s \<in> set (scripts m) \<and>
       (substring (toLowerCase q) (toLowerCase (title s)) \<or>
        substring (toLowerCase q) (toLowerCase (description s)) \<or>
        (\<exists>ts t. tags s = Some ts \<and> t \<in> set ts \<and>
           substring (toLowerCase q) (toLowerCase t))))"
proof -
  have same: "toLowerCase q = toLowerCase q' \<longrightarrow> search m q = search m q'"
    by (simp add: search_def)
  have variant: "case_variant q q' \<longrightarrow> search m q = search m q'"
    using case_variant_toLowerCase[of q q'] by (auto simp add: search_def)
  have selected: "\<forall>s. s \<in> set (search m q) \<longleftrightarrow>
       s \<in> set (scripts m) \<and>
       (substring (toLowerCase q) (toLowerCase (title s)) \<or>
        substring (toLowerCase q) (toLowerCase (description s)) \<or>
        (\<exists>ts t. tags s = Some ts \<and> t \<in> set ts \<and>
           substring (toLowerCase q) (toLowerCase t)))"
    by (auto simp add: search_def Let_def str_includes_substring list_ex_iff
        split: option.splits)
  from same variant selected show ?thesis by blast
qed

theorem search_case_insensitive_witness:
  "case_variant ''AHK'' ''ahk'' \<and>
   toLowerCase [CHR 0xC9] = [CHR 0xE9] \<and>
   search (example_manager
       [example_script ''a'' ''AHK Toolkit'' ''2024-01-01'',
        example_script ''b'' ''Window helper'' ''2024-01-02''] []) ''AHK''
   = [example_script ''a'' ''AHK Toolkit'' ''2024-01-01''] \<and>
   search (example_manager
       [example_script ''a'' ''AHK Toolkit'' ''2024-01-01'',
        example_script ''b'' ''Window helper'' ''2024-01-02''] []) ''ahk''
   = [example_script ''a'' ''AHK Toolkit'' ''2024-01-01'']"
proof -
  let ?m = "example_manager
       [example_script ''a'' ''AHK Toolkit'' ''2024-01-01'',
        example_script ''b'' ''Window helper'' ''2024-01-02''] []"
  have v: "case_variant ''AHK'' ''ahk''"
    by code_simp
  have latin: "toLowerCase [CHR 0xC9] = [CHR 0xE9]"
    by code_simp
  have lower: "search ?m ''ahk'' = [example_script ''a'' ''AHK Toolkit'' ''2024-01-01'']"
    by code_simp
  from search_case_insensitive[of "''AHK''" "''ahk''" ?m] v
  have "search ?m ''AHK'' = search ?m ''ahk''" by blast
  with lower v latin show ?thesis by simp
qed

text \<open>
  The claim C8 as stated fails for a variant that changes the letters: the upper-case
  form of the sharp s (code unit 223) is \<^verbatim>\<open>SS\<close>, the query with the sharp s selects
  the record whose title contains it, and the query \<^verbatim>\<open>SS\<close> selects nothing.
\<close>

theorem search_sharp_s_variant:
  "toUpperCase [CHR 0xDF] = [83, 83] \<and>
   map of_char ''SS'' = [83, 83 :: nat] \<and>
   search (example_manager
       [example_script ''a'' (''Stra'' @ [CHR 0xDF] @ ''e'') ''2024-01-01''] []) [CHR 0xDF]
   = [example_script ''a'' (''Stra'' @ [CHR 0xDF] @ ''e'') ''2024-01-01''] \<and>
   search (example_manager
       [example_script ''a'' (''Stra'' @ [CHR 0xDF] @ ''e'') ''2024-01-01''] []) ''SS''
   = []"
proof -
  have u: "toUpperCase [CHR 0xDF] = [83, 83]" by code_simp
  have ss: "map of_char ''SS'' = [83, 83 :: nat]" by simp
  have hit: "search (example_manager
       [example_script ''a'' (''Stra'' @ [CHR 0xDF] @ ''e'') ''2024-01-01''] []) [CHR 0xDF]
   = [example_script ''a'' (''Stra'' @ [CHR 0xDF] @ ''e'') ''2024-01-01'']"
    by code_simp
  have miss: "search (example_manager
       [example_script ''a'' (''Stra'' @ [CHR 0xDF] @ ''e'') ''2024-01-01''] []) ''SS''
   = []"
    by code_simp
  from u ss hit miss show ?thesis by simp
qed

section \<open>The claim about the recency sort\<close>

lemma js_insert_insort_key:
  "\<forall>y\<in>set ys. (SortCompare comparefn x y \<le> 0) = (f x \<le> f y) \<Longrightarrow>
   js_insert comparefn x ys = insort_key f x ys"
  by (induction ys) simp_all

lemma js_sort_sort_key:
  "\<forall>x\<in>set xs. \<forall>y\<in>set xs. (SortCompare comparefn x y \<le> 0) = (f x \<le> f y) \<Longrightarrow>
   js_sort comparefn xs = sort_key f xs"
proof (induction xs)
  case Nil
  then show ?case by simp
next
  case (Cons x xs)
  from Cons.prems have "\<forall>a\<in>set xs. \<forall>b\<in>set xs. (SortCompare comparefn a b \<le> 0) = (f a \<le> f b)"
    by simp
  from Cons.IH[OF this] have sorted_tail: "js_sort comparefn xs = sort_key f xs" .
  from Cons.prems have "\<forall>y\<in>set (sort_key f xs). (SortCompare comparefn x y \<le> 0) = (f x \<le> f y)"
    by simp
  from js_insert_insort_key[OF this] sorted_tail show ?case by simp
qed

lemma recency_compare:
  assumes "date (lastModified a) \<noteq> None" and "date (lastModified b) \<noteq> None"
  shows "(SortCompare (\<lambda>a b. js_num_minus (date (lastModified b)) (date (lastModified a))) a b \<le> 0)
     = (- the (date (lastModified a)) \<le> - the (date (lastModified b)))"
  using assms by (auto simp add: SortCompare_def js_num_minus_def)

lemma recency_sort_sort_key:
  assumes "\<forall>s\<in>set xs. date (lastModified s) \<noteq> None"
  shows "js_sort (\<lambda>a b. js_num_minus (date (lastModified b)) (date (lastModified a))) xs
     = sort_key (\<lambda>s. - the (date (lastModified s))) xs"
  by (rule js_sort_sort_key) (use assms in \<open>simp add: recency_compare\<close>)

lemma slice0_negative:
  "k < 0 \<Longrightarrow> slice0 xs k = take (length xs - nat (- k)) xs"
  by (auto simp add: slice0_def Let_def max_def intro: arg_cong[where f = "\<lambda>n. take n xs"])

text \<open>
  C7, as amended.  When every \<^verbatim>\<open>lastModified\<close> of the collection is a valid date,
  there is a list \<open>ordered\<close> that is the collection sorted by time, newest first, with
  records of equal time in their original order: \<open>ordered\<close> has the records of the
  collection, its times never increase, and for every time the records of that time
  appear in it in the order they have in the collection.  For a limit that is not
  negative \<^verbatim>\<open>getRecent(limit)\<close> returns the first \<open>limit\<close> records of \<open>ordered\<close>; for
  a negative limit it returns \<open>ordered\<close> without its last \<open>-limit\<close> records; without
  a limit it returns the first 10.  The manager is unchanged in every case.
\<close>

theorem getRecent_sorted_stable:
  assumes "\<forall>s\<in>set (scripts m). date (lastModified s) \<noteq> None"
  shows "\<exists>ordered.
     mset ordered = mset (scripts m) \<and>
     sorted_wrt (\<lambda>a b. the (date (lastModified b)) \<le> the (date (lastModified a))) ordered \<and>
     (\<forall>t. filter (\<lambda>s. date (lastModified s) = Some t) ordered =
          filter (\<lambda>s. date (lastModified s) = Some t) (scripts m)) \<and>
     (0 \<le> limit \<longrightarrow> getRecent date m (Some limit) = (take (nat limit) ordered, m)) \<and>
     (limit < 0 \<longrightarrow>
        getRecent date m (Some limit) = (take (length ordered - nat (- limit)) ordered, m)) \<and>
     getRecent date m None = (take 10 ordered, m)"
proof -
  let ?key = "\<lambda>s. - the (date (lastModified s))"
  let ?ordered = "sort_key ?key (scripts m)"
  have eq: "js_sort (\<lambda>a b. js_num_minus (date (lastModified b)) (date (lastModified a))) (scripts m)
      = ?ordered"
    using assms by (rule recency_sort_sort_key)
  have result: "0 \<le> limit \<longrightarrow> getRecent date m (Some limit) = (take (nat limit) ?ordered, m)"
    by (simp add: getRecent_def Let_def eq slice0_take)
  have negative: "limit < 0 \<longrightarrow>
      getRecent date m (Some limit) = (take (length ?ordered - nat (- limit)) ?ordered, m)"
    by (simp add: getRecent_def Let_def eq slice0_negative)
  have dflt: "getRecent date m None = (take 10 ?ordered, m)"
    by (simp add: getRecent_def Let_def eq slice0_take)
  have perm: "mset ?ordered = mset (scripts m)" by simp
  have "sorted (map ?key ?ordered)" by (rule sorted_sort_key)
  then have desc: "sorted_wrt (\<lambda>a b. the (date (lastModified b)) \<le> the (date (lastModified a))) ?ordered"
    by (simp add: sorted_map)
  have stable: "filter (\<lambda>s. date (lastModified s) = Some t) ?ordered =
          filter (\<lambda>s. date (lastModified s) = Some t) (scripts m)" for t
  proof -
    have valid: "\<forall>s\<in>set ?ordered. date (lastModified s) \<noteq> None"
      using assms by simp
    have "filter (\<lambda>s. date (lastModified s) = Some t) ?ordered
        = filter (\<lambda>s. ?key s = - t) ?ordered"
      using valid by (intro filter_cong) auto
    also have "\<dots> = filter (\<lambda>s. ?key s = - t) (scripts m)"
      by (rule sort_key_stable)
    also have "\<dots> = filter (\<lambda>s. date (lastModified s) = Some t) (scripts m)"
      using assms by (intro filter_cong) auto
    finally show ?thesis .
  qed
  from perm desc stable result negative dflt show ?thesis by blast
qed

theorem getRecent_sorted_stable_witness:
  "list_all (\<lambda>s. iso_utc_time (lastModified s) \<noteq> None)
     [example_script ''a'' ''first'' ''2024-01-01'',
      example_script ''b'' ''second'' ''2024-01-03'',
      example_script ''c'' ''third'' ''2024-01-03''] \<and>
   fst (getRecent iso_utc_time
     (example_manager
        [example_script ''a'' ''first'' ''2024-01-01'',
         example_script ''b'' ''second'' ''2024-01-03'',
         example_script ''c'' ''third'' ''2024-01-03''] []) (Some 2))
   = [example_script ''b'' ''second'' ''2024-01-03'',
      example_script ''c'' ''third'' ''2024-01-03''] \<and>
   snd (getRecent iso_utc_time
     (example_manager
        [example_script ''a'' ''first'' ''2024-01-01'',
         example_script ''b'' ''second'' ''2024-01-03'',
         example_script ''c'' ''third'' ''2024-01-03''] []) (Some 2))
   = example_manager
        [example_script ''a'' ''first'' ''2024-01-01'',
         example_script ''b'' ''second'' ''2024-01-03'',
         example_script ''c'' ''third'' ''2024-01-03''] []"
proof -
  let ?xs = "[example_script ''a'' ''first'' ''2024-01-01'',
      example_script ''b'' ''second'' ''2024-01-03'',
      example_script ''c'' ''third'' ''2024-01-03'']"
  have t1: "iso_utc_time ''2024-01-01'' = Some 1704067200000" by code_simp
  have t3: "iso_utc_time ''2024-01-03'' = Some 1704240000000" by code_simp
  have valid: "\<forall>s\<in>set (scripts (example_manager ?xs [])). iso_utc_time (lastModified s) \<noteq> None"
    by (simp add: example_manager_def example_script_def t1 t3)
  from getRecent_sorted_stable[OF valid, of 2] obtain ordered where
    r: "getRecent iso_utc_time (example_manager ?xs []) (Some 2) =
          (take (nat 2) ordered, example_manager ?xs [])"
    by auto
  then have unchanged:
    "snd (getRecent iso_utc_time (example_manager ?xs []) (Some 2)) = example_manager ?xs []"
    by simp
  have "fst (getRecent iso_utc_time (example_manager ?xs []) (Some 2))
      = [example_script ''b'' ''second'' ''2024-01-03'',
         example_script ''c'' ''third'' ''2024-01-03'']"
    by (simp add: getRecent_def example_manager_def example_script_def t1 t3 slice0_def
        js_num_minus_def SortCompare_def Let_def)
  moreover have "list_all (\<lambda>s. iso_utc_time (lastModified s) \<noteq> None) ?xs"
    by (simp add: example_script_def t1 t3)
  ultimately show ?thesis using unchanged by simp
qed

text \<open>
  The claim C7 as stated fails for a negative limit: \<^verbatim>\<open>getRecent(-1)\<close> on three
  records returns two of them, the sorted list without its last record, where the
  first \<open>limit\<close> records of any list are none.
\<close>

theorem getRecent_negative_limit:
  "fst (getRecent iso_utc_time
     (example_manager
        [example_script ''a'' ''first'' ''2024-01-01'',
         example_script ''b'' ''second'' ''2024-01-03'',
         example_script ''c'' ''third'' ''2024-01-03''] []) (Some (- 1)))
   = [example_script ''b'' ''second'' ''2024-01-03'',
      example_script ''c'' ''third'' ''2024-01-03''] \<and>
   take (nat (- 1))
     [example_script ''b'' ''second'' ''2024-01-03'',
      example_script ''c'' ''third'' ''2024-01-03'',
      example_script ''a'' ''first'' ''2024-01-01''] = []"
proof -
  have t1: "iso_utc_time ''2024-01-01'' = Some 1704067200000" by code_simp
  have t3: "iso_utc_time ''2024-01-03'' = Some 1704240000000" by code_simp
  show ?thesis
    by (simp add: getRecent_def example_manager_def example_script_def t1 t3 slice0_def
        js_num_minus_def SortCompare_def Let_def)
qed

section \<open>The claim about the query loop\<close>

lemma updateFeed_step_result:
  "updateFeed_step h (allRepos, out, n) query =
     (allRepos @ (case snd (searchRepos h n query 30) of
                    Inr repos \<Rightarrow> map normalizeRepo repos | Inl message \<Rightarrow> []),
      out @ [(Log, ''  Searching: '' @ query)] @
        (case snd (searchRepos h n query 30) of
           Inr repos \<Rightarrow> []
         | Inl message \<Rightarrow>
             [(Error, ''  Error with query '' @ [CHR 0x22] @ query @ [CHR 0x22] @ '': '' @ message)]),
      Suc n)"
  by (simp add: updateFeed_step_def searchRepos_def Let_def split: sum.splits)

lemma updateFeed_fold:
  "foldl (updateFeed_step h) (allRepos, out, n) queries =
     (allRepos @ concat (map (\<lambda>(i, q).
          case snd (searchRepos h i q 30) of
            Inr repos \<Rightarrow> map normalizeRepo repos | Inl message \<Rightarrow> [])
        (enumerate n queries)),
      out @ concat (map (\<lambda>(i, q).
          [(Log, ''  Searching: '' @ q)] @
          (case snd (searchRepos h i q 30) of
             Inr repos \<Rightarrow> []
           | Inl message \<Rightarrow>
               [(Error, ''  Error with query '' @ [CHR 0x22] @ q @ [CHR 0x22] @ '': '' @ message)]))
        (enumerate n queries)),
      n + length queries)"
proof (induction queries arbitrary: allRepos out n)
  case Nil
  then show ?case by simp
next
  case (Cons q queries)
  show ?case
    by (simp only: foldl_Cons updateFeed_step_result Cons.IH) simp
qed

lemma show_nat_30: "show_nat 30 = ''30''"
  by code_simp

lemma searchRepos_outcome:
  "snd (searchRepos h i q 30) =
     (case https_request h i (''/search/repositories?q='' @ encodeURIComponent h q @
             ''&sort=updated&order=desc&per_page=30'') of
        RequestError message \<Rightarrow> Inl message
      | HttpResponse statusCode body \<Rightarrow>
          if statusCode = 200
          then (case JSON_parse h body of
                  Inl message \<Rightarrow> Inl (''Failed to parse response: '' @ message)
                | Inr found \<Rightarrow> Inr (list_or_empty (items found)))
          else if statusCode = 403
          then Inl ''GitHub API rate limit exceeded. Set GITHUB_TOKEN for higher limits.''
          else Inl (''GitHub API error: '' @ show_nat statusCode @ '' - '' @ body))"
  by (simp add: searchRepos_def feed_fetchFromGitHub_def Let_def show_nat_30
      split: http_outcome.splits sum.splits)

lemma searchRepos_succeeds_iff:
  "(\<not> isl (snd (searchRepos h i q 30))) =
     (\<exists>body found.
        https_request h i (''/search/repositories?q='' @ encodeURIComponent h q @
             ''&sort=updated&order=desc&per_page=30'') = HttpResponse 200 body \<and>
        JSON_parse h body = Inr found)"
  by (auto simp add: searchRepos_outcome split: http_outcome.splits sum.splits)

lemma rate_limited_run:
  "updateFeed_queries rate_limited_host [] 0 [''autohotkey v2'', ''ahk v2'', ''topic:autohotkey-v2''] =
     ([normalizeRepo (example_repo 1 ''lib'' ''2024-01-01T00:00:00Z'' None),
       normalizeRepo (example_repo 3 ''tool'' ''2024-01-03T00:00:00Z'' None)],
      [(Log, ''  Searching: autohotkey v2''),
       (Log, ''  Searching: ahk v2''),
       (Error, ''  Error with query '' @ [CHR 0x22] @ ''ahk v2'' @ [CHR 0x22] @
          '': GitHub API rate limit exceeded. Set GITHUB_TOKEN for higher limits.''),
       (Log, ''  Searching: topic:autohotkey-v2'')],
      3)"
proof -
  let ?h = rate_limited_host
  have first: "snd (searchRepos ?h 0 ''autohotkey v2'' 30) =
      Inr [example_repo 1 ''lib'' ''2024-01-01T00:00:00Z'' None]"
    by (simp add: searchRepos_outcome rate_limited_host_def quiet_host_def list_or_empty_def)
  have second: "snd (searchRepos ?h (Suc 0) ''ahk v2'' 30) =
     Inl ''GitHub API rate limit exceeded. Set GITHUB_TOKEN for higher limits.''"
    by (simp add: searchRepos_outcome rate_limited_host_def quiet_host_def)
  have third: "snd (searchRepos ?h (Suc (Suc 0)) ''topic:autohotkey-v2'' 30) =
      Inr [example_repo 3 ''tool'' ''2024-01-03T00:00:00Z'' None]"
    by (simp add: searchRepos_outcome rate_limited_host_def quiet_host_def list_or_empty_def)
  show ?thesis
    unfolding updateFeed_queries_def updateFeed_fold
    by (simp add: enumerate_eq_zip upt_rec first second third)
qed

text \<open>
  C4, as amended.  The query loop of \<^verbatim>\<open>updateFeed\<close> runs every query, whatever the
  earlier ones did: it returns a result for every list of queries, the records it
  collects are the concatenation, in query order, of the normalized results of the
  queries that succeeded, a query that failed contributes no record and one line
  written with \<^verbatim>\<open>console.error\<close>, and the number of requests made is the number of
  queries.  A query succeeds exactly when the response has status 200 and a body that
  parses; a failed request, status 403, any other status and a body that does not
  parse are failures, each with its message.
\<close>

theorem updateFeed_queries_isolates_failures:
  "updateFeed_queries h out n queries =
     (concat (map (\<lambda>(i, q).
          case snd (searchRepos h i q 30) of
            Inr repos \<Rightarrow> map normalizeRepo repos | Inl message \<Rightarrow> [])
        (enumerate n queries)),
      out @ concat (map (\<lambda>(i, q).
          [(Log, ''  Searching: '' @ q)] @
          (case snd (searchRepos h i q 30) of
             Inr repos \<Rightarrow> []
           | Inl message \<Rightarrow>
               [(Error, ''  Error with query '' @ [CHR 0x22] @ q @ [CHR 0x22] @ '': '' @ message)]))
        (enumerate n queries)),
      n + length queries) \<and>
   snd (searchRepos h i q 30) =
     (case https_request h i (''/search/repositories?q='' @ encodeURIComponent h q @
             ''&sort=updated&order=desc&per_page=30'') of
        RequestError message \<Rightarrow> Inl message
      | HttpResponse statusCode body \<Rightarrow>
          if statusCode = 200
          then (case JSON_parse h body of
                  Inl message \<Rightarrow> Inl (''Failed to parse response: '' @ message)
                | Inr found \<Rightarrow> Inr (list_or_empty (items found)))
          else if statusCode = 403
          then Inl ''GitHub API rate limit exceeded. Set GITHUB_TOKEN for higher limits.''
          else Inl (''GitHub API error: '' @ show_nat statusCode @ '' - '' @ body)) \<and>
   (\<not> isl (snd (searchRepos h i q 30))) =
     (\<exists>body found.
        https_request h i (''/search/repositories?q='' @ encodeURIComponent h q @
             ''&sort=updated&order=desc&per_page=30'') = HttpResponse 200 body \<and>
        JSON_parse h body = Inr found)"
  using updateFeed_fold[of h "[]" out n queries] searchRepos_outcome[of h i q]
    searchRepos_succeeds_iff[of h i q]
  by (simp add: updateFeed_queries_def)

theorem updateFeed_queries_isolates_failures_witness:
  "https_request rate_limited_host 1
     (''/search/repositories?q='' @ encodeURIComponent rate_limited_host ''ahk v2'' @
        ''&sort=updated&order=desc&per_page=30'') = HttpResponse 403 ''rate limit exceeded'' \<and>
   snd (searchRepos rate_limited_host 1 ''ahk v2'' 30) =
     Inl ''GitHub API rate limit exceeded. Set GITHUB_TOKEN for higher limits.'' \<and>
   updateFeed_queries rate_limited_host [] 0 [''autohotkey v2'', ''ahk v2'', ''topic:autohotkey-v2''] =
     ([normalizeRepo (example_repo 1 ''lib'' ''2024-01-01T00:00:00Z'' None),
       normalizeRepo (example_repo 3 ''tool'' ''2024-01-03T00:00:00Z'' None)],
      [(Log, ''  Searching: autohotkey v2''),
       (Log, ''  Searching: ahk v2''),
       (Error, ''  Error with query '' @ [CHR 0x22] @ ''ahk v2'' @ [CHR 0x22] @
          '': GitHub API rate limit exceeded. Set GITHUB_TOKEN for higher limits.''),
       (Log, ''  Searching: topic:autohotkey-v2'')],
      3)"
proof -
  let ?h = rate_limited_host
  have limited: "https_request ?h 1
     (''/search/repositories?q='' @ encodeURIComponent ?h ''ahk v2'' @
        ''&sort=updated&order=desc&per_page=30'') = HttpResponse 403 ''rate limit exceeded''"
    by (simp add: rate_limited_host_def quiet_host_def)
  note inst = updateFeed_queries_isolates_failures[of ?h "[]" 0
      "[''autohotkey v2'', ''ahk v2'', ''topic:autohotkey-v2'']" 1 "''ahk v2''"]
  from inst have "snd (searchRepos ?h 1 ''ahk v2'' 30) =
     (case https_request ?h 1 (''/search/repositories?q='' @ encodeURIComponent ?h ''ahk v2'' @
             ''&sort=updated&order=desc&per_page=30'') of
        RequestError message \<Rightarrow> Inl message
      | HttpResponse statusCode body \<Rightarrow>
          if statusCode = 200
          then (case JSON_parse ?h body of
                  Inl message \<Rightarrow> Inl (''Failed to parse response: '' @ message)
                | Inr found \<Rightarrow> Inr (list_or_empty (items found)))
          else if statusCode = 403
          then Inl ''GitHub API rate limit exceeded. Set GITHUB_TOKEN for higher limits.''
          else Inl (''GitHub API error: '' @ show_nat statusCode @ '' - '' @ body))"
    by blast
  then have second: "snd (searchRepos ?h 1 ''ahk v2'' 30) =
     Inl ''GitHub API rate limit exceeded. Set GITHUB_TOKEN for higher limits.''"
    unfolding limited by simp
  from limited second rate_limited_run show ?thesis by simp
qed

text \<open>
  The claim C4 as stated fails on the level of the notice: in the run where the second
  of three queries meets status 403, the console holds three lines written with
  \<^verbatim>\<open>console.log\<close> and one written with \<^verbatim>\<open>console.error\<close>, and no warning.
\<close>

theorem updateFeed_rate_limit_logged_as_error:
  "map fst (fst (snd (updateFeed_queries rate_limited_host [] 0
      [''autohotkey v2'', ''ahk v2'', ''topic:autohotkey-v2'']))) = [Log, Log, Error, Log]"
  by (simp add: rate_limited_run)

section \<open>The claim about the cache\<close>

lemma say_frame [simp]:
  "localStorage (say l msg w) = localStorage w"
  "invoked (say l msg w) = invoked w"
  "console (say l msg w) = console w @ [(l, msg)]"
  by (simp_all add: say_def)

lemma loadFromCache_storage:
  "localStorage (fst (snd (loadFromCache h w m))) = localStorage w"
  by (simp add: loadFromCache_def Let_def
      split: storage_access.splits option.splits sum.splits prod.splits)

lemma loadFromCache_not_true_unchanged:
  "fst (loadFromCache h w m) \<noteq> Inr True \<Longrightarrow> snd (snd (loadFromCache h w m)) = m"
  by (simp add: loadFromCache_def Let_def
      split: storage_access.splits option.splits sum.splits prod.splits if_splits)

lemma loadFromCache_denied:
  "localStorage w = Denied message \<Longrightarrow> loadFromCache h w m = (Inl message, w, m)"
  by (simp add: loadFromCache_def)

text \<open>
  C9.  With a store that can be read and a cache entry that parses to
  \<^verbatim>\<open>{ scripts, timestamp }\<close>: when the age \<^verbatim>\<open>Date.now() - timestamp\<close> is below
  \<^verbatim>\<open>cacheTTL\<close> the cached records are merged and the call returns true; when the age
  is at or above \<^verbatim>\<open>cacheTTL\<close> the call returns false and leaves the manager and the
  whole world, the store included, as they were.  On every input the store is left as
  it was, and a call that does not return true leaves the manager unchanged.
\<close>

theorem loadFromCache_respects_ttl:
  assumes "localStorage w = Available st"
    and "stored st (cacheKey (config m)) = Some cached"
    and "cached \<noteq> []"
    and "JSON_parse_cache h cached = Inr (cachedScripts, timestamp)"
  shows "(Date_now h - timestamp < cacheTTL (config m) \<longrightarrow>
           loadFromCache h w m =
             (Inr True, say Log ''Loaded scripts from cache'' w,
              m\<lparr>scripts := manager_mergeScripts (scripts m) cachedScripts\<rparr>)) \<and>
         (cacheTTL (config m) \<le> Date_now h - timestamp \<longrightarrow>
           loadFromCache h w m = (Inr False, w, m)) \<and>
         localStorage (fst (snd (loadFromCache h w m))) = localStorage w \<and>
         (fst (loadFromCache h w m) \<noteq> Inr True \<longrightarrow> snd (snd (loadFromCache h w m)) = m)"
proof -
  have fresh: "Date_now h - timestamp < cacheTTL (config m) \<longrightarrow>
           loadFromCache h w m =
             (Inr True, say Log ''Loaded scripts from cache'' w,
              m\<lparr>scripts := manager_mergeScripts (scripts m) cachedScripts\<rparr>)"
    using assms by (simp add: loadFromCache_def Let_def)
  have stale: "cacheTTL (config m) \<le> Date_now h - timestamp \<longrightarrow>
           loadFromCache h w m = (Inr False, w, m)"
    using assms by (simp add: loadFromCache_def Let_def)
  from fresh stale loadFromCache_storage[of h w m] loadFromCache_not_true_unchanged[of h w m]
  show ?thesis by blast
qed

theorem loadFromCache_respects_ttl_witness:
  "localStorage (example_world (Available (example_storage ''{cache}'' True))) =
     Available (example_storage ''{cache}'' True) \<and>
   stored (example_storage ''{cache}'' True)
     (cacheKey (config (example_manager [example_script ''a'' ''old'' ''2024-01-01''] []))) =
     Some ''{cache}'' \<and>
   JSON_parse_cache stale_cache_host ''{cache}'' =
     Inr ([example_script ''c'' ''cached'' ''2024-01-01''], 1704067000000) \<and>
   cacheTTL (config (example_manager [example_script ''a'' ''old'' ''2024-01-01''] []))
     \<le> Date_now stale_cache_host - 1704067000000 \<and>
   loadFromCache stale_cache_host
     (example_world (Available (example_storage ''{cache}'' True)))
     (example_manager [example_script ''a'' ''old'' ''2024-01-01''] [])
   = (Inr False, example_world (Available (example_storage ''{cache}'' True)),
      example_manager [example_script ''a'' ''old'' ''2024-01-01''] [])"
proof -
  let ?st = "example_storage ''{cache}'' True"
  let ?w = "example_world (Available ?st)"
  let ?m = "example_manager [example_script ''a'' ''old'' ''2024-01-01''] []"
  have a1: "localStorage ?w = Available ?st" by (simp add: example_world_def)
  have a2: "stored ?st (cacheKey (config ?m)) = Some ''{cache}''"
    by (simp add: example_storage_def example_manager_def default_config_def)
  have a3: "''{cache}'' \<noteq> []" by simp
  have a4: "JSON_parse_cache stale_cache_host ''{cache}'' =
     Inr ([example_script ''c'' ''cached'' ''2024-01-01''], 1704067000000)"
    by (simp add: stale_cache_host_def quiet_host_def)
  have old: "cacheTTL (config ?m) \<le> Date_now stale_cache_host - 1704067000000"
    by (simp add: example_manager_def default_config_def stale_cache_host_def quiet_host_def)
  from loadFromCache_respects_ttl[OF a1 a2 a3 a4] old
  have "loadFromCache stale_cache_host ?w ?m = (Inr False, ?w, ?m)" by blast
  with a1 a2 a4 old show ?thesis by simp
qed

section \<open>The claim about \<open>update\<close>\<close>

lemma notify_step_frame:
  "localStorage (notify_step m w cb) = localStorage w \<and>
   invoked (notify_step m w cb) = invoked w @ [(cb_id cb, scripts m, lastUpdate m)]"
  by (simp add: notify_step_def Let_def split: option.splits)

lemma notify_fold_frame:
  "localStorage (foldl (notify_step m) w cbs) = localStorage w \<and>
   invoked (foldl (notify_step m) w cbs) =
     invoked w @ map (\<lambda>cb. (cb_id cb, scripts m, lastUpdate m)) cbs"
  by (induction cbs arbitrary: w) (simp_all add: notify_step_frame)

lemma notifyUpdate_frame:
  "localStorage (notifyUpdate w m) = localStorage w \<and>
   invoked (notifyUpdate w m) =
     invoked w @ map (\<lambda>cb. (cb_id cb, scripts m, lastUpdate m)) (updateCallbacks m)"
  by (simp add: notifyUpdate_def notify_fold_frame)

lemma manager_fetch_frame:
  "localStorage (snd (manager_fetchFromGitHub gen h w m)) = localStorage w \<and>
   invoked (snd (manager_fetchFromGitHub gen h w m)) = invoked w"
  by (simp add: manager_fetchFromGitHub_def Let_def split: prod.splits sum.splits)

lemma saveToCache_frame:
  "invoked (snd (saveToCache h w m)) = invoked w \<and>
   localStorage (snd (saveToCache h w m)) =
     (case localStorage w of
        Undefined \<Rightarrow> Undefined
      | Denied message \<Rightarrow> Denied message
      | Available st \<Rightarrow>
          if writable st
          then Available (st\<lparr>stored := (stored st)(cacheKey (config m) \<mapsto>
                               JSON_stringify_cache h (scripts m, Date_now h))\<rparr>)
          else Available st) \<and>
   fst (saveToCache h w m) =
     (case localStorage w of
        Undefined \<Rightarrow> Inr ()
      | Denied message \<Rightarrow> Inl message
      | Available st \<Rightarrow> Inr ())"
  by (simp add: saveToCache_def setItem_def split: storage_access.splits)

lemma manager_fetch_rate_limited:
  assumes "enableGitHubFetch (config m)"
    and "fetch h (githubApiBase (config m) @ ''/search/repositories?q='' @
           encodeURIComponent h (searchQuery (config m)) @
           ''&sort=updated&per_page='' @ show_nat (maxResults (config m))) =
         FetchResponse 403 body"
  shows "manager_fetchFromGitHub gen h w m = ([], say Warn ''GitHub API rate limit reached'' w)"
  using assms
  by (simp add: manager_fetchFromGitHub_def fetch_attempt_def Let_def say_def)

lemma fetch_attempt_failed:
  "fetch_failed (fetch h address) \<Longrightarrow>
   snd (fetch_attempt gen h address) = Inr [] \<or> isl (snd (fetch_attempt gen h address))"
  by (auto simp add: fetch_failed_def fetch_attempt_def split: fetch_outcome.splits sum.splits)

lemma manager_fetch_failed:
  assumes "\<forall>address. fetch_failed (fetch h address)"
  shows "fst (manager_fetchFromGitHub gen h w m) = []"
proof (cases "enableGitHubFetch (config m)")
  case False
  then show ?thesis by (simp add: manager_fetchFromGitHub_def)
next
  case True
  let ?address = "githubApiBase (config m) @ ''/search/repositories?q='' @
      encodeURIComponent h (searchQuery (config m)) @
      ''&sort=updated&per_page='' @ show_nat (maxResults (config m))"
  from assms have "fetch_failed (fetch h ?address)" by blast
  from fetch_attempt_failed[OF this, of gen] True show ?thesis
    by (auto simp add: manager_fetchFromGitHub_def Let_def split: prod.splits sum.splits)
qed

text \<open>
  Where \<^verbatim>\<open>localStorage\<close> can be read, or is undefined, \<^verbatim>\<open>update()\<close> resolves on
  every input, whatever the fetch did: it returns the collection of the manager,
  \<^verbatim>\<open>lastUpdate\<close> is the current time, the collection is the old one when the fetch
  gave no record and the merge of the fetched records otherwise, the store holds the new
  entry when there is a store and it accepts the write and is as before otherwise, and
  every registered callback has been called once, in order, also after a callback that
  threw.
\<close>

lemma update_resolves:
  assumes "\<And>message. localStorage w \<noteq> Denied message"
  shows "(case update gen h w m of
      (outcome, w', m') \<Rightarrow>
        outcome = Inr (scripts m') \<and>
        lastUpdate m' = Some (toISOString h (Date_now h)) \<and>
        config m' = config m \<and>
        updateCallbacks m' = updateCallbacks m \<and>
        scripts m' =
          (if fst (manager_fetchFromGitHub gen h (say Log ''Starting script update...'' w) m) = []
           then scripts m
           else manager_mergeScripts (scripts m)
                  (fst (manager_fetchFromGitHub gen h (say Log ''Starting script update...'' w) m))) \<and>
        localStorage w' =
          (case localStorage w of
             Undefined \<Rightarrow> Undefined
           | Denied message \<Rightarrow> Denied message
           | Available st \<Rightarrow>
               if writable st
               then Available (st\<lparr>stored := (stored st)(cacheKey (config m) \<mapsto>
                               JSON_stringify_cache h (scripts m', Date_now h))\<rparr>)
               else Available st) \<and>
        invoked w' =
          invoked w @ map (\<lambda>cb. (cb_id cb, scripts m', lastUpdate m')) (updateCallbacks m) \<and>
        ((\<forall>address. fetch_failed (fetch h address)) \<longrightarrow> scripts m' = scripts m))"
proof -
  define fetched where
    "fetched = manager_fetchFromGitHub gen h (say Log ''Starting script update...'' w) m"
  define m2 where
    "m2 = (if length (fst fetched) > 0
           then m\<lparr>scripts := manager_mergeScripts (scripts m) (fst fetched)\<rparr> else m)
          \<lparr>lastUpdate := Some (toISOString h (Date_now h))\<rparr>"
  define w3 where "w3 = snd (saveToCache h (snd fetched) m2)"
  define w5 where
    "w5 = say Log (''Update complete. Total scripts: '' @ show_nat (length (scripts m2)))
            (notifyUpdate w3 m2)"
  have before: "localStorage (snd fetched) = localStorage w" "invoked (snd fetched) = invoked w"
    using manager_fetch_frame[of gen h "say Log ''Starting script update...'' w" m]
    by (simp_all add: fetched_def)
  have saved: "fst (saveToCache h (snd fetched) m2) = Inr ()"
    using saveToCache_frame[of h "snd fetched" m2] assms
    by (simp add: before split: storage_access.splits)
  then have pair: "saveToCache h (snd fetched) m2 = (Inr (), w3)"
    by (simp add: w3_def prod_eq_iff)
  have u: "update gen h w m = (Inr (scripts m2), w5, m2)"
    unfolding update_def Let_def fetched_def[symmetric] m2_def[symmetric]
    by (simp add: pair w5_def)
  have lu: "lastUpdate m2 = Some (toISOString h (Date_now h))"
    by (simp add: m2_def)
  have cfg: "config m2 = config m" and cbs: "updateCallbacks m2 = updateCallbacks m"
    by (simp_all add: m2_def)
  have scr: "scripts m2 =
      (if fst fetched = [] then scripts m else manager_mergeScripts (scripts m) (fst fetched))"
    by (simp add: m2_def)
  have store: "localStorage w5 =
      (case localStorage w of
         Undefined \<Rightarrow> Undefined
       | Denied message \<Rightarrow> Denied message
       | Available st \<Rightarrow>
           if writable st
           then Available (st\<lparr>stored := (stored st)(cacheKey (config m) \<mapsto>
                           JSON_stringify_cache h (scripts m2, Date_now h))\<rparr>)
           else Available st)"
    using notifyUpdate_frame[of w3 m2] saveToCache_frame[of h "snd fetched" m2]
    by (simp add: w5_def w3_def before cfg split: storage_access.splits)
  have calls: "invoked w5 =
      invoked w @ map (\<lambda>cb. (cb_id cb, scripts m2, lastUpdate m2)) (updateCallbacks m)"
    using notifyUpdate_frame[of w3 m2] saveToCache_frame[of h "snd fetched" m2]
    by (simp add: w5_def w3_def before cbs)
  have failed: "(\<forall>address. fetch_failed (fetch h address)) \<longrightarrow> scripts m2 = scripts m"
    using manager_fetch_failed[of h gen "say Log ''Starting script update...'' w" m]
    by (simp add: scr fetched_def)
  show ?thesis
    unfolding u prod.case
    using lu cfg cbs scr store calls failed unfolding fetched_def by blast
qed

text \<open>
  Where reading \<^verbatim>\<open>localStorage\<close> throws, the error leaves \<^verbatim>\<open>saveToCache()\<close> and
  \<^verbatim>\<open>update()\<close> rejects with it: \<^verbatim>\<open>lastUpdate\<close> is already set and no callback is
  called.
\<close>

lemma update_rejects:
  assumes "localStorage w = Denied message"
  shows "fst (update gen h w m) = Inl message \<and>
         invoked (fst (snd (update gen h w m))) = invoked w \<and>
         lastUpdate (snd (snd (update gen h w m))) = Some (toISOString h (Date_now h))"
proof -
  define fetched where
    "fetched = manager_fetchFromGitHub gen h (say Log ''Starting script update...'' w) m"
  define m2 where
    "m2 = (if length (fst fetched) > 0
           then m\<lparr>scripts := manager_mergeScripts (scripts m) (fst fetched)\<rparr> else m)
          \<lparr>lastUpdate := Some (toISOString h (Date_now h))\<rparr>"
  have before: "localStorage (snd fetched) = Denied message" "invoked (snd fetched) = invoked w"
    using manager_fetch_frame[of gen h "say Log ''Starting script update...'' w" m] assms
    by (simp_all add: fetched_def)
  have pair: "saveToCache h (snd fetched) m2 = (Inl message, snd fetched)"
    by (simp add: saveToCache_def before)
  have u: "update gen h w m = (Inl message, snd fetched, m2)"
    unfolding update_def Let_def fetched_def[symmetric] m2_def[symmetric]
    by (simp add: pair)
  show ?thesis
    unfolding u by (simp add: before m2_def)
qed

text \<open>
  C10.  \<^verbatim>\<open>update()\<close> does not complete on every call.  In a browser that denies the
  page access to storage, reading \<^verbatim>\<open>localStorage\<close> throws; the test in
  \<^verbatim>\<open>saveToCache()\<close> stands outside its \<^verbatim>\<open>try\<close>, and \<^verbatim>\<open>update()\<close> rejects with the
  error after it has set \<^verbatim>\<open>lastUpdate\<close>: neither of the two registered callbacks is
  called and no collection is returned.  With a store that can be read the same call
  returns the collection and calls both callbacks, the first of which throws.
\<close>

theorem update_rejects_when_storage_denied:
  "fst (update (\<lambda>repo. []) quiet_host
     (example_world (Denied ''SecurityError: access is denied for this document''))
     (example_manager [example_script ''a'' ''old'' ''2024-01-01'']
        [throwing_callback, quiet_callback]))
   = Inl ''SecurityError: access is denied for this document'' \<and>
   invoked (fst (snd (update (\<lambda>repo. []) quiet_host
     (example_world (Denied ''SecurityError: access is denied for this document''))
     (example_manager [example_script ''a'' ''old'' ''2024-01-01'']
        [throwing_callback, quiet_callback]))))
   = [] \<and>
   lastUpdate (snd (snd (update (\<lambda>repo. []) quiet_host
     (example_world (Denied ''SecurityError: access is denied for this document''))
     (example_manager [example_script ''a'' ''old'' ''2024-01-01'']
        [throwing_callback, quiet_callback]))))
   = Some ''2024-01-01T00:05:00.000Z'' \<and>
   fst (update (\<lambda>repo. []) quiet_host
     (example_world (Available (example_storage ''{old}'' True)))
     (example_manager [example_script ''a'' ''old'' ''2024-01-01'']
        [throwing_callback, quiet_callback]))
   = Inr [example_script ''a'' ''old'' ''2024-01-01''] \<and>
   invoked (fst (snd (update (\<lambda>repo. []) quiet_host
     (example_world (Available (example_storage ''{old}'' True)))
     (example_manager [example_script ''a'' ''old'' ''2024-01-01'']
        [throwing_callback, quiet_callback]))))
   = [(1, [example_script ''a'' ''old'' ''2024-01-01''], Some ''2024-01-01T00:05:00.000Z''),
      (2, [example_script ''a'' ''old'' ''2024-01-01''], Some ''2024-01-01T00:05:00.000Z'')]"
proof -
  let ?denied = "example_world (Denied ''SecurityError: access is denied for this document'')"
  let ?w = "example_world (Available (example_storage ''{old}'' True))"
  let ?m = "example_manager [example_script ''a'' ''old'' ''2024-01-01'']
        [throwing_callback, quiet_callback]"
  have d: "localStorage ?denied = Denied ''SecurityError: access is denied for this document''"
    by (simp add: example_world_def)
  from update_rejects[OF d, of "\<lambda>repo. []" quiet_host ?m]
  have rejected: "fst (update (\<lambda>repo. []) quiet_host ?denied ?m)
        = Inl ''SecurityError: access is denied for this document''"
    and none: "invoked (fst (snd (update (\<lambda>repo. []) quiet_host ?denied ?m))) = []"
    and stamped: "lastUpdate (snd (snd (update (\<lambda>repo. []) quiet_host ?denied ?m)))
        = Some ''2024-01-01T00:05:00.000Z''"
    by (simp_all add: example_world_def quiet_host_def)
  have readable: "\<And>message. localStorage ?w \<noteq> Denied message"
    by (simp add: example_world_def)
  have failing: "\<forall>address. fetch_failed (fetch quiet_host address)"
    by (simp add: fetch_failed_def quiet_host_def)
  obtain outcome w' m' where eq: "update (\<lambda>repo. []) quiet_host ?w ?m = (outcome, w', m')"
    by (cases "update (\<lambda>repo. []) quiet_host ?w ?m") blast
  from update_resolves[where gen = "\<lambda>repo. []" and h = quiet_host and w = ?w and m = ?m,
      OF readable] failing
  have r: "outcome = Inr (scripts m')"
    and t: "lastUpdate m' = Some (toISOString quiet_host (Date_now quiet_host))"
    and s: "scripts m' = scripts ?m"
    and c: "invoked w' =
       invoked ?w @ map (\<lambda>cb. (cb_id cb, scripts m', lastUpdate m')) (updateCallbacks ?m)"
    unfolding eq prod.case by blast+
  have r': "outcome = Inr [example_script ''a'' ''old'' ''2024-01-01'']"
    using r s by (simp add: example_manager_def)
  have t': "lastUpdate m' = Some ''2024-01-01T00:05:00.000Z''"
    using t by (simp add: quiet_host_def)
  have c': "invoked w' =
     [(1, [example_script ''a'' ''old'' ''2024-01-01''], Some ''2024-01-01T00:05:00.000Z''),
      (2, [example_script ''a'' ''old'' ''2024-01-01''], Some ''2024-01-01T00:05:00.000Z'')]"
    using c s t'
    by (simp add: example_manager_def example_world_def throwing_callback_def quiet_callback_def)
  from rejected none stamped r' c' show ?thesis unfolding eq by simp
qed

end
